theory Spec2Isabelle
  imports Main "HOL-Library.Sublist"
begin

section \<open>Text\<close>

text \<open>
  Python strings are sequences of code points. They are modelled as HOL strings, whose
  characters are the code points below 256; \<open>str.lower()\<close> on these code points moves
  the ASCII capitals and the Latin-1 capitals (U+00C0 to U+00DE, the multiplication sign
  U+00D7 apart) up by 32 and leaves every other character alone.
\<close>

definition lower_char :: "char \<Rightarrow> char" where
  "lower_char c =
     (let n = (of_char c :: nat)
      in if (65 \<le> n \<and> n \<le> 90) \<or> (192 \<le> n \<and> n \<le> 222 \<and> n \<noteq> 215)
         then char_of (n + 32) else c)"

definition lower :: "string \<Rightarrow> string" where
  "lower s = map lower_char s"

text \<open>\<open>s.startswith(w)\<close>, and the substring test \<open>w in s\<close>.\<close>

fun startswith :: "string \<Rightarrow> string \<Rightarrow> bool" where
  "startswith s [] = True"
| "startswith [] (w # ws) = False"
| "startswith (c # cs) (w # ws) = (c = w \<and> startswith cs ws)"

fun contains :: "string \<Rightarrow> string \<Rightarrow> bool" where
  "contains [] w = (w = [])"
| "contains (c # cs) w = (startswith (c # cs) w \<or> contains cs w)"

section \<open>Web-search detection\<close>

text \<open>
  \<open>ThreadSafeHandeAI.needs_web_search\<close> (Hande.py) and \<open>HandeAI.needs_web_search\<close>
  (Hande_GUI.py): \<open>any(word in query.lower() for word in indicators)\<close>, each with its own
  list of indicators.
\<close>

definition indicators :: "string list" where
  "indicators =
     [''today'', ''now'', ''current'', ''weather'', ''news'', ''president'', ''latest'']"

definition current_indicators :: "string list" where
  "current_indicators =
     [''today'', ''now'', ''current'', ''latest'', ''recent'', ''2024'', ''2025'',
      ''weather'', ''news'', ''stock'', ''price'', ''president'', ''date'', ''time'']"

definition ThreadSafeHandeAI_needs_web_search :: "string \<Rightarrow> bool" where
  "ThreadSafeHandeAI_needs_web_search query =
     list_ex (\<lambda>word. contains (lower query) word) indicators"

definition HandeAI_needs_web_search :: "string \<Rightarrow> bool" where
  "HandeAI_needs_web_search query =
     (let query_lower = lower query
      in list_ex (\<lambda>indicator. contains query_lower indicator) current_indicators)"

section \<open>The stream events and the generation worker of Hande.py\<close>

text \<open>
  The worker puts pairs \<open>(kind, data)\<close> on the message queue. The status and error texts
  are fixed sentences of the source, so they are constructors here:
  \<open>Thinking\<close> is "Thinking...", \<open>Searching_web\<close> is "Searching web...",
  \<open>Generating_response\<close> is "Generating response...", \<open>No_models_available\<close> is
  "No Ollama models available", and \<open>Encountered_error\<close> is the text "I encountered an
  error: ..." that the outer \<open>except\<close> builds from the exception.
\<close>

datatype status_text = Thinking | Searching_web | Generating_response

datatype error_text = No_models_available | Encountered_error

datatype event =
    Status status_text
  | StreamStart
  | Char_ev char
  | Complete string
  | Error error_text

text \<open>
  One call of \<open>ollama.chat\<close>: it raises, or it returns a reply. The worker tests the
  reply with \<open>not response\<close> and then reads \<open>response["message"]["content"]\<close>:
  \<open>Empty_reply\<close> is a reply that is false in that test (an empty mapping),
  \<open>No_content\<close> is a reply on which the read raises (a key is missing), and
  \<open>Content\<close> carries what the read gives, an optional string.
\<close>

datatype reply = Empty_reply | No_content | Content "string option"

datatype chat_result = Chat_raises | Chat_returns reply

text \<open>
  The system prompt is a fixed text around the current time and the web abstract; the line
  \<open>Current info: ...\<close> is there when the abstract is not empty.
\<close>

record system_prompt =
  current_time :: string
  current_info :: string

text \<open>
  What the worker meets outside itself: the web lookup (\<open>search_web_fast\<close> catches every
  exception and returns the empty string then), the model backend, the clock, the stop
  event as the worker reads it (\<open>is_set i\<close> is what \<open>stop_event.is_set()\<close> answers at the
  poll made when \<open>i\<close> characters have been streamed), and whether \<open>executor.submit\<close>
  raises when the save is handed over, as it does once the executor is shut down.
\<close>

record worker_env =
  search_web_fast :: "string \<Rightarrow> string"
  chat :: "string \<Rightarrow> system_prompt \<Rightarrow> string \<Rightarrow> chat_result"
  strftime_now :: string
  is_set :: "nat \<Rightarrow> bool"
  submit_raises :: bool

text \<open>
  The loop \<open>for model in models: try: response = chat(...); break; except: continue\<close>.
  It returns the models that were contacted, in order, and the reply (\<open>None\<close> when
  the variable \<open>response\<close> is still \<open>None\<close> after the loop).
\<close>

fun try_models :: "(string \<Rightarrow> chat_result) \<Rightarrow> string list \<Rightarrow> string list \<times> reply option" where
  "try_models call [] = ([], None)"
| "try_models call (model # rest) =
     (case call model of
        Chat_returns response \<Rightarrow> ([model], Some response)
      | Chat_raises \<Rightarrow>
          (let (tried, response) = try_models call rest in (model # tried, response)))"

text \<open>Every model of the list raises.\<close>

definition all_raise :: "(string \<Rightarrow> chat_result) \<Rightarrow> string list \<Rightarrow> bool" where
  "all_raise call ms = list_all (\<lambda>model. call model = Chat_raises) ms"

definition models :: "string list" where
  "models = [''llama3.2'', ''llama3.2:1b'', ''llama3:8b'', ''gemma2:2b'']"

text \<open>
  The streaming loop: \<open>for char in full_response: if stop_event.is_set(): break;
  message_queue.put(("char", char))\<close>; \<open>i\<close> counts the characters already put.
\<close>

fun stream_chars :: "(nat \<Rightarrow> bool) \<Rightarrow> nat \<Rightarrow> string \<Rightarrow> event list" where
  "stream_chars stop i [] = []"
| "stream_chars stop i (c # cs) =
     (if stop i then [] else Char_ev c # stream_chars stop (Suc i) cs)"

text \<open>
  The result of one run of the worker: the events put on the queue, in order, the models
  contacted, and the arguments of \<open>save_conversation_async\<close> when it was called.
\<close>

record turn_result =
  events :: "event list"
  contacted :: "string list"
  saved :: "(string \<times> string) option"

text \<open>
  \<open>ThreadSafeHandeAI.generate_response_safe\<close>. The whole body stands in one \<open>try\<close>,
  whose \<open>except\<close> puts the error event \<open>Encountered_error\<close>.
  When no model answers, or the reply is empty, the error event \<open>No_models_available\<close>
  is put and the worker returns. When the read of the content raises, the \<open>except\<close>
  branch runs before \<open>start_stream\<close> was put; when the content is \<open>None\<close>, the loop
  \<open>for char in full_response\<close> raises after \<open>start_stream\<close> was put. Otherwise the
  characters are streamed until the stop event is seen, and after the loop, left by
  exhaustion or by \<open>break\<close>, the worker puts \<open>complete\<close> with the full response and
  calls \<open>save_conversation_async\<close>; when the submit in it raises, the \<open>except\<close> branch
  runs after \<open>complete\<close> was put, and no save is submitted.
\<close>

definition web_info_for :: "worker_env \<Rightarrow> string \<Rightarrow> string" where
  "web_info_for env user_query =
     (if ThreadSafeHandeAI_needs_web_search user_query then search_web_fast env user_query
      else [])"

definition model_call :: "worker_env \<Rightarrow> string \<Rightarrow> string \<Rightarrow> chat_result" where
  "model_call env user_query model =
     chat env model
       \<lparr>current_time = strftime_now env, current_info = web_info_for env user_query\<rparr>
       user_query"

definition statuses :: "string \<Rightarrow> event list" where
  "statuses user_query =
     [Status Thinking]
     @ (if ThreadSafeHandeAI_needs_web_search user_query then [Status Searching_web] else [])
     @ [Status Generating_response]"

definition generate_response_safe :: "worker_env \<Rightarrow> string \<Rightarrow> turn_result" where
  "generate_response_safe env user_query =
     (case try_models (model_call env user_query) models of
        (tried, None) \<Rightarrow>
          \<lparr>events = statuses user_query @ [Error No_models_available],
           contacted = tried, saved = None\<rparr>
      | (tried, Some Empty_reply) \<Rightarrow>
          \<lparr>events = statuses user_query @ [Error No_models_available],
           contacted = tried, saved = None\<rparr>
      | (tried, Some No_content) \<Rightarrow>
          \<lparr>events = statuses user_query @ [Error Encountered_error],
           contacted = tried, saved = None\<rparr>
      | (tried, Some (Content None)) \<Rightarrow>
          \<lparr>events = statuses user_query @ [StreamStart, Error Encountered_error],
           contacted = tried, saved = None\<rparr>
      | (tried, Some (Content (Some full_response))) \<Rightarrow>
          \<lparr>events = statuses user_query @ [StreamStart]
                    @ stream_chars (is_set env) 0 full_response @ [Complete full_response]
                    @ (if submit_raises env then [Error Encountered_error] else []),
           contacted = tried,
           saved = (if submit_raises env then None else Some (user_query, full_response))\<rparr>)"

text \<open>
  The stop event is a latch. When it is raised after exactly \<open>k\<close> characters were put, the
  polls made before that read it clear and every later poll reads it set.
\<close>

definition raised_after :: "nat \<Rightarrow> nat \<Rightarrow> bool" where
  "raised_after k i = (k \<le> i)"

subsection \<open>Event grammars\<close>







section \<open>The generation worker of Hande_GUI.py\<close>

subsection \<open>Context assembly\<close>

text \<open>
  A task submitted to the executor: the time at which its result is there, in milliseconds
  after the worker started, and the result. \<open>Future.result(timeout)\<close>, called at time
  \<open>now\<close>, returns the result as soon as it is there, and raises \<open>TimeoutError\<close> at
  \<open>now + timeout\<close> when it is not there by then; \<open>future_result\<close> gives the time at which
  the call is over and the result (\<open>None\<close> for the timeout). The statements between the
  waits take no time in this model: it measures the time the worker is blocked.
\<close>

record 'a future =
  done_at :: nat
  outcome :: 'a

definition future_result :: "nat \<Rightarrow> nat \<Rightarrow> 'a future \<Rightarrow> nat \<times> 'a option" where
  "future_result now timeout f =
     (if done_at f \<le> now + timeout then (max now (done_at f), Some (outcome f))
      else (now + timeout, None))"

text \<open>The two literals \<open>timeout=0.5\<close> and \<open>timeout=1.0\<close>, in milliseconds.\<close>

definition recent_context_timeout :: nat where
  "recent_context_timeout = 500"

definition web_timeout :: nat where
  "web_timeout = 1000"

text \<open>
  The context line built from the last exchange of the history,
  \<open>Previous: 'user[:40]' -> 'ai[:40]'\<close> and a newline, and the web line
  \<open>Current: results[0][:150]\<close>.
\<close>

definition context_of :: "(string \<times> string) list \<Rightarrow> string" where
  "context_of conversation_history =
     (case rev conversation_history of
        [] \<Rightarrow> []
      | (user_msg, ai_msg) # earlier \<Rightarrow>
          ''Previous: '' @ [CHR 0x27] @ take 40 user_msg @ [CHR 0x27] @ '' -> ''
          @ [CHR 0x27] @ take 40 ai_msg @ [CHR 0x27] @ [CHR 0x0A])"

definition web_info_of :: "string list \<Rightarrow> string" where
  "web_info_of search_results =
     (case search_results of [] \<Rightarrow> [] | first # others \<Rightarrow> ''Current: '' @ take 150 first)"

text \<open>
  Lines 229 to 260 of \<open>generate_response_streaming\<close>: both lookups are submitted at time 0,
  then the worker waits for the context, and after that wait is over it waits for the web
  lookup, when there is one. The result is the context, the web line and the time at which
  the second wait is over.
\<close>

definition assemble_context ::
  "(string \<times> string) list future \<Rightarrow> string list future option \<Rightarrow> string \<times> string \<times> nat" where
  "assemble_context context_future web_future =
     (let (t1, conversation_history) = future_result 0 recent_context_timeout context_future;
          context = (case conversation_history of None \<Rightarrow> [] | Some h \<Rightarrow> context_of h)
      in case web_future of
           None \<Rightarrow> (context, [], t1)
         | Some pending_web \<Rightarrow>
             (case future_result t1 web_timeout pending_web of
                (t2, None) \<Rightarrow> (context, [], t2)
              | (t2, Some search_results) \<Rightarrow> (context, web_info_of search_results, t2)))"

text \<open>The time at which the assembly is over.\<close>

definition blocked_until :: "string \<times> string \<times> nat \<Rightarrow> nat" where
  "blocked_until assembled = snd (snd assembled)"

subsection \<open>Streaming through the callback\<close>

record gui_prompt =
  date_str :: string
  time_str :: string
  prompt_context :: string
  prompt_web_info :: string

text \<open>
  The surroundings of the worker of Hande_GUI.py. \<open>fallback\<close> is the fixed sentence that
  the \<open>except\<close> branch types; it starts with a character outside the modelled range, so it
  is a field here. \<open>gui_submit_raises i\<close> says that \<open>executor.submit\<close> raises at the
  submit number \<open>i\<close> of the worker: 0 is the context lookup, 1 the web lookup, 2 the
  save. The callback is taken to return.
\<close>

record gui_env =
  context_lookup :: "(string \<times> string) list future"
  web_lookup :: "string \<Rightarrow> string list future"
  ollama_chat :: "string \<Rightarrow> gui_prompt \<Rightarrow> string \<Rightarrow> chat_result"
  date_now :: string
  time_now :: string
  stop_is_set :: "nat \<Rightarrow> bool"
  fallback :: string
  gui_submit_raises :: "nat \<Rightarrow> bool"

definition models_to_try :: "string list" where
  "models_to_try = [''llama3.2'', ''llama3:8b'']"

text \<open>\<open>for char in text: if stop_event.is_set(): break; callback(char)\<close>.\<close>

fun type_chars :: "(nat \<Rightarrow> bool) \<Rightarrow> nat \<Rightarrow> string \<Rightarrow> string" where
  "type_chars stop i [] = []"
| "type_chars stop i (c # cs) = (if stop i then [] else c # type_chars stop (Suc i) cs)"

text \<open>
  What a run of the worker does: the characters passed to the callback, in order, the
  models contacted, and the arguments of the save when one was submitted. A run that an
  uncaught exception ends is the left summand.
\<close>

record stream_result =
  typed :: string
  models_contacted :: "string list"
  submitted_save :: "(string \<times> string) option"

datatype worker_exception = Submit_refused

definition gui_model_call :: "gui_env \<Rightarrow> string \<Rightarrow> string \<Rightarrow> chat_result" where
  "gui_model_call env user_query model =
     (let web_future = (if HandeAI_needs_web_search user_query
                        then Some (web_lookup env user_query) else None);
          (context, web_info, t) = assemble_context (context_lookup env) web_future
      in ollama_chat env model
           \<lparr>date_str = date_now env, time_str = time_now env,
            prompt_context = context, prompt_web_info = web_info\<rparr>
           user_query)"

text \<open>
  \<open>HandeAI.generate_response_streaming\<close>. The two lookups are submitted outside the
  \<open>try\<close>: a submit that raises there ends the worker. The rest stands in the \<open>try\<close>,
  whose \<open>except\<close> branch types the fallback sentence, polling the stop event as well.
  It runs when no model answers or the reply is empty (\<open>Exception("No available
  models")\<close>), when the read of the content raises, when the content is \<open>None\<close> (the
  \<open>for\<close> loop raises), and when the submit of the save raises, after the characters of
  the response were typed. Otherwise the characters go to the callback until the stop event
  is seen, and after the loop, left by exhaustion or by \<open>break\<close>, the save is submitted.
\<close>

definition typed_fallback :: "gui_env \<Rightarrow> string list \<Rightarrow> stream_result" where
  "typed_fallback env tried =
     \<lparr>typed = type_chars (stop_is_set env) 0 (fallback env), models_contacted = tried,
      submitted_save = None\<rparr>"

definition generate_response_streaming ::
  "gui_env \<Rightarrow> string \<Rightarrow> worker_exception + stream_result" where
  "generate_response_streaming env user_query =
     (if gui_submit_raises env 0 then Inl Submit_refused
      else if HandeAI_needs_web_search user_query \<and> gui_submit_raises env 1
      then Inl Submit_refused
      else Inr
        (case try_models (gui_model_call env user_query) models_to_try of
           (tried, None) \<Rightarrow> typed_fallback env tried
         | (tried, Some Empty_reply) \<Rightarrow> typed_fallback env tried
         | (tried, Some No_content) \<Rightarrow> typed_fallback env tried
         | (tried, Some (Content None)) \<Rightarrow> typed_fallback env tried
         | (tried, Some (Content (Some full_response))) \<Rightarrow>
             (let response_typed = type_chars (stop_is_set env) 0 full_response
              in if gui_submit_raises env 2
                 then \<lparr>typed = response_typed
                          @ type_chars (stop_is_set env) (length response_typed)
                              (fallback env),
                       models_contacted = tried, submitted_save = None\<rparr>
                 else \<lparr>typed = response_typed, models_contacted = tried,
                       submitted_save = Some (user_query, full_response)\<rparr>)))"

text \<open>No submit of the worker raises for this query.\<close>

definition submits_accepted :: "gui_env \<Rightarrow> string \<Rightarrow> bool" where
  "submits_accepted env user_query =
     (\<not> gui_submit_raises env 0
      \<and> \<not> (HandeAI_needs_web_search user_query \<and> gui_submit_raises env 1)
      \<and> \<not> gui_submit_raises env 2)"

section \<open>Sending a message\<close>

text \<open>
  The part of the window that \<open>send_message\<close> reads and writes: the entry, the messages
  shown (with the flag \<open>is_user\<close>), whether the send button is packed (the stop button is
  packed when it is not), the message queue, the stop event, the worker thread, and the
  queries for which a worker thread was started.
\<close>

record thread =
  args_message :: string
  is_alive :: bool

record gui =
  message_entry :: string
  chat_container :: "(string \<times> bool) list"
  send_btn_packed :: bool
  message_queue :: "event list"
  stop_event :: bool
  response_thread :: "thread option"
  started :: "string list"

text \<open>\<open>str.isspace\<close> on the code points below 256, and \<open>str.strip()\<close>.\<close>

definition isspace :: "char \<Rightarrow> bool" where
  "isspace c =
     (let n = (of_char c :: nat)
      in (9 \<le> n \<and> n \<le> 13) \<or> (28 \<le> n \<and> n \<le> 32) \<or> n = 133 \<or> n = 160)"

definition strip :: "string \<Rightarrow> string" where
  "strip s = rev (dropWhile isspace (rev (dropWhile isspace s)))"

text \<open>
  The error that the specification names for a second call. \<open>send_message\<close> returns a
  sum so that the claim about it can be stated; no path of the source raises.
\<close>

datatype gui_error = AlreadyGenerating

definition generating :: "gui \<Rightarrow> bool" where
  "generating g = (case response_thread g of None \<Rightarrow> False | Some t \<Rightarrow> is_alive t)"

text \<open>\<open>ThreadSafeHandeGUI.send_message\<close> of Hande.py.\<close>

definition ThreadSafeHandeGUI_send_message :: "gui \<Rightarrow> gui_error + gui" where
  "ThreadSafeHandeGUI_send_message g =
     (let message = strip (message_entry g)
      in if message = [] then Inr g
         else if generating g then Inr g
         else Inr (g\<lparr>chat_container := chat_container g @ [(message, True)],
                     message_entry := [],
                     send_btn_packed := False,
                     message_queue := [],
                     stop_event := False,
                     response_thread := Some \<lparr>args_message = message, is_alive = True\<rparr>,
                     started := started g @ [message]\<rparr>))"

text \<open>\<open>HandeGUI.send_message\<close> of Hande_GUI.py, which has no test of the running thread.\<close>

definition HandeGUI_send_message :: "gui \<Rightarrow> gui_error + gui" where
  "HandeGUI_send_message g =
     (let message = strip (message_entry g)
      in if message = [] then Inr g
         else Inr (g\<lparr>chat_container := chat_container g @ [(message, True)],
                     message_entry := [],
                     send_btn_packed := False,
                     stop_event := False,
                     response_thread := Some \<lparr>args_message = message, is_alive = True\<rparr>,
                     started := started g @ [message]\<rparr>))"

section \<open>The conversation store\<close>

subsection \<open>The connection\<close>

text \<open>
  Both programs share one \<open>sqlite3\<close> connection among all their calls. A connection
  holds the committed tables and, while a transaction is open, the tables as the
  transaction has changed them; statements on the connection read and write the latter.
\<close>

record 'tables connection =
  committed :: 'tables
  pending :: "'tables option"

definition in_transaction :: "'t connection \<Rightarrow> bool" where
  "in_transaction c = (pending c \<noteq> None)"

definition visible :: "'t connection \<Rightarrow> 't" where
  "visible c = (case pending c of None \<Rightarrow> committed c | Some t \<Rightarrow> t)"

text \<open>
  Each statement returns whether it completed (\<open>False\<close>: it raised) and the connection
  after it. The flag \<open>raising\<close> says that the database refuses this statement; a refused
  statement changes no table.

  \<open>execute_begin\<close> is \<open>cursor.execute('BEGIN TRANSACTION')\<close>, which also raises inside a
  transaction. \<open>execute_dml\<close> is \<open>cursor.execute\<close> of an INSERT, UPDATE or REPLACE: the
  \<open>sqlite3\<close> module opens a transaction before it when none is open.
  \<open>execute_commit\<close> and \<open>execute_rollback\<close> are \<open>cursor.execute\<close> of COMMIT and
  ROLLBACK, which raise when no transaction is open; \<open>connection_commit\<close> is the method
  \<open>commit()\<close> of the connection, which does nothing then.
\<close>

definition execute_begin :: "bool \<Rightarrow> 't connection \<Rightarrow> bool \<times> 't connection" where
  "execute_begin raising c =
     (if raising \<or> in_transaction c then (False, c)
      else (True, c\<lparr>pending := Some (committed c)\<rparr>))"

definition execute_dml :: "bool \<Rightarrow> ('t \<Rightarrow> 't) \<Rightarrow> 't connection \<Rightarrow> bool \<times> 't connection" where
  "execute_dml raising statement c =
     (let opened = (if in_transaction c then c else c\<lparr>pending := Some (committed c)\<rparr>)
      in if raising then (False, opened)
         else (True, opened\<lparr>pending := Some (statement (visible opened))\<rparr>))"

definition execute_commit :: "bool \<Rightarrow> 't connection \<Rightarrow> bool \<times> 't connection" where
  "execute_commit raising c =
     (if raising \<or> \<not> in_transaction c then (False, c)
      else (True, \<lparr>committed = visible c, pending = None\<rparr>))"

definition connection_commit :: "bool \<Rightarrow> 't connection \<Rightarrow> bool \<times> 't connection" where
  "connection_commit raising c =
     (if \<not> in_transaction c then (True, c)
      else if raising then (False, c)
      else (True, \<lparr>committed = visible c, pending = None\<rparr>))"

definition execute_rollback :: "'t connection \<Rightarrow> bool \<times> 't connection" where
  "execute_rollback c =
     (if in_transaction c then (True, c\<lparr>pending := None\<rparr>) else (False, c))"

text \<open>The next statement of a \<open>try\<close> block runs when the one before completed.\<close>

definition and_then ::
  "bool \<times> 't connection \<Rightarrow> ('t connection \<Rightarrow> bool \<times> 't connection) \<Rightarrow> bool \<times> 't connection" where
  "and_then r statement = (if fst r then statement (snd r) else r)"

text \<open>
  What a call meets outside itself: \<open>raising i\<close> says that the database refuses the
  statement number \<open>i\<close> of the call, \<open>uuid4\<close> is the identifier drawn, and \<open>clock i\<close> is the
  reading number \<open>i\<close> of the clock in the call. Time stamps are numbers here; the programs
  store ISO strings (Hande_GUI.py) or seconds (Hande.py).
\<close>

record call_env =
  raising :: "nat \<Rightarrow> bool"
  uuid4 :: string
  clock :: "nat \<Rightarrow> nat"

text \<open>\<open>not self.current_conversation_id\<close> is false for a non-empty string only.\<close>

definition truthy :: "string option \<Rightarrow> bool" where
  "truthy conv_id = (case conv_id of None \<Rightarrow> False | Some i \<Rightarrow> i \<noteq> [])"

subsection \<open>The store of Hande_GUI.py\<close>

text \<open>
  The tables \<open>conversations\<close> and \<open>conversation_sessions\<close>. The column \<open>title\<close> of
  \<open>conversations\<close> is never written and is left out. \<open>id\<close> is declared
  \<open>AUTOINCREMENT\<close>: a new row gets a number above every number used before, which the
  table \<open>sqlite_sequence\<close> remembers.
\<close>

record turn =
  row_id :: nat
  conversation_id :: string
  timestamp :: nat
  user_message :: string
  ai_response :: string

record session =
  session_id :: string
  title :: string
  created_at :: nat
  last_updated :: nat
  message_count :: nat

record tables =
  conversations :: "turn list"
  conversation_sessions :: "session list"
  sqlite_sequence :: nat

definition max_row_id :: "turn list \<Rightarrow> nat" where
  "max_row_id rows = fold max (map row_id rows) 0"

definition insert_conversation :: "string \<Rightarrow> nat \<Rightarrow> string \<Rightarrow> string \<Rightarrow> tables \<Rightarrow> tables" where
  "insert_conversation conv_id stamp user_msg ai_msg t =
     (let new_id = Suc (max (sqlite_sequence t) (max_row_id (conversations t)))
      in t\<lparr>conversations := conversations t
              @ [\<lparr>row_id = new_id, conversation_id = conv_id, timestamp = stamp,
                  user_message = user_msg, ai_response = ai_msg\<rparr>],
            sqlite_sequence := new_id\<rparr>)"

definition has_session :: "string \<Rightarrow> tables \<Rightarrow> bool" where
  "has_session conv_id t = list_ex (\<lambda>s. session_id s = conv_id) (conversation_sessions t)"

definition insert_session :: "session \<Rightarrow> tables \<Rightarrow> tables" where
  "insert_session row t = t\<lparr>conversation_sessions := conversation_sessions t @ [row]\<rparr>"

text \<open>\<open>UPDATE ... SET last_updated = ?, message_count = message_count + 1 WHERE id = ?\<close>.\<close>

definition update_session_count :: "nat \<Rightarrow> string \<Rightarrow> tables \<Rightarrow> tables" where
  "update_session_count stamp conv_id t =
     t\<lparr>conversation_sessions :=
         map (\<lambda>s. if session_id s = conv_id
                   then s\<lparr>last_updated := stamp, message_count := message_count s + 1\<rparr>
                   else s)
             (conversation_sessions t)\<rparr>"

text \<open>\<open>SELECT message_count ... WHERE id = ?\<close> and \<open>fetchone()\<close>.\<close>

definition select_message_count :: "string \<Rightarrow> tables \<Rightarrow> nat option" where
  "select_message_count conv_id t =
     (case filter (\<lambda>s. session_id s = conv_id) (conversation_sessions t) of
        [] \<Rightarrow> None
      | s # others \<Rightarrow> Some (message_count s))"

definition update_session_title :: "string \<Rightarrow> string \<Rightarrow> tables \<Rightarrow> tables" where
  "update_session_title new_title conv_id t =
     t\<lparr>conversation_sessions :=
         map (\<lambda>s. if session_id s = conv_id then s\<lparr>title := new_title\<rparr> else s)
             (conversation_sessions t)\<rparr>"

text \<open>\<open>user_msg[:30] + "..." if len(user_msg) > 30 else user_msg\<close>.\<close>

definition title_for :: "string \<Rightarrow> string" where
  "title_for user_msg = (if length user_msg > 30 then take 30 user_msg @ ''...'' else user_msg)"

record hande_ai =
  current_conversation_id :: "string option"
  connection_pool :: "tables connection"

text \<open>
  \<open>HandeAI.create_new_conversation\<close>: the INSERT is statement 0 and raises also when the
  identifier is already a key of the table; \<open>commit()\<close> is statement 1; the \<open>except\<close>
  branch passes.
\<close>

definition HandeAI_create_new_conversation :: "call_env \<Rightarrow> hande_ai \<Rightarrow> hande_ai" where
  "HandeAI_create_new_conversation env ai =
     (let conv_id = uuid4 env;
          c = connection_pool ai;
          r1 = execute_dml (raising env 0 \<or> has_session conv_id (visible c))
                 (insert_session \<lparr>session_id = conv_id, title = ''New Chat'',
                    created_at = clock env 0, last_updated = clock env 1, message_count = 0\<rparr>) c;
          r2 = and_then r1 (connection_commit (raising env 1))
      in \<lparr>current_conversation_id = Some conv_id, connection_pool = snd r2\<rparr>)"

text \<open>
  The \<open>try\<close> block of \<open>HandeAI.save_conversation\<close>: BEGIN (statement 0), the INSERT of
  the turn (1), the UPDATE of the session (2), the SELECT of the count (3), the UPDATE of
  the title when the count is 1 (4), COMMIT (5).
\<close>

definition save_transaction ::
  "call_env \<Rightarrow> string \<Rightarrow> string \<Rightarrow> string \<Rightarrow> tables connection \<Rightarrow> bool \<times> tables connection" where
  "save_transaction env conv_id user_msg ai_msg c =
     (let r1 = execute_begin (raising env 0) c;
          r2 = and_then r1
                 (execute_dml (raising env 1)
                    (insert_conversation conv_id (clock env 0) user_msg ai_msg));
          r3 = and_then r2
                 (execute_dml (raising env 2) (update_session_count (clock env 1) conv_id));
          r4 = and_then r3
                 (\<lambda>c3. if raising env 3 then (False, c3)
                        else if select_message_count conv_id (visible c3) = Some 1
                        then execute_dml (raising env 4)
                               (update_session_title (title_for user_msg) conv_id) c3
                        else (True, c3))
      in and_then r4 (execute_commit (raising env 5)))"

datatype save_outcome = Committed | Rolled_back | Rollback_raised

text \<open>
  \<open>if not self.current_conversation_id: self.create_new_conversation()\<close>, and the
  identifier that the statements get as their parameter (after \<open>ensure_session\<close> there
  is one).
\<close>

definition ensure_session :: "call_env \<Rightarrow> hande_ai \<Rightarrow> hande_ai" where
  "ensure_session create_env ai =
     (if truthy (current_conversation_id ai) then ai
      else HandeAI_create_new_conversation create_env ai)"

definition current_id :: "hande_ai \<Rightarrow> string" where
  "current_id ai = (case current_conversation_id ai of None \<Rightarrow> [] | Some i \<Rightarrow> i)"

text \<open>
  \<open>HandeAI.save_conversation\<close>: a session is created first when there is no current one;
  when the \<open>try\<close> block raises, the handler executes ROLLBACK, which raises itself when no
  transaction is open.
\<close>

definition save_conversation ::
  "call_env \<Rightarrow> call_env \<Rightarrow> string \<Rightarrow> string \<Rightarrow> hande_ai \<Rightarrow> save_outcome \<times> hande_ai" where
  "save_conversation create_env env user_msg ai_msg ai =
     (let ai1 = ensure_session create_env ai;
          body = save_transaction env (current_id ai1) user_msg ai_msg (connection_pool ai1)
      in if fst body then (Committed, ai1\<lparr>connection_pool := snd body\<rparr>)
         else (case execute_rollback (snd body) of
                 (True, c) \<Rightarrow> (Rolled_back, ai1\<lparr>connection_pool := c\<rparr>)
               | (False, c) \<Rightarrow> (Rollback_raised, ai1\<lparr>connection_pool := c\<rparr>)))"

text \<open>Several turns saved one after the other, each with its own surroundings.\<close>

fun save_turns :: "call_env \<Rightarrow> (call_env \<times> string \<times> string) list \<Rightarrow> hande_ai \<Rightarrow> hande_ai" where
  "save_turns create_env [] ai = ai"
| "save_turns create_env ((env, user_msg, ai_msg) # rest) ai =
     save_turns create_env rest (snd (save_conversation create_env env user_msg ai_msg ai))"


text \<open>
  The tables after all the statements of one transaction: the turn inserted, the session
  counted, and its title written when the count has become 1.
\<close>

definition turn_update :: "call_env \<Rightarrow> string \<Rightarrow> string \<Rightarrow> string \<Rightarrow> tables \<Rightarrow> tables" where
  "turn_update env conv_id user_msg ai_msg t =
     (let counted = update_session_count (clock env 1) conv_id
                      (insert_conversation conv_id (clock env 0) user_msg ai_msg t)
      in if select_message_count conv_id counted = Some 1
         then update_session_title (title_for user_msg) conv_id counted
         else counted)"

text \<open>No statement of the transaction is refused.\<close>

definition undisturbed :: "call_env \<Rightarrow> string \<Rightarrow> string \<Rightarrow> string \<Rightarrow> tables \<Rightarrow> bool" where
  "undisturbed env conv_id user_msg ai_msg t =
     (\<not> raising env 0 \<and> \<not> raising env 1 \<and> \<not> raising env 2 \<and> \<not> raising env 3
      \<and> \<not> raising env 5
      \<and> \<not> (raising env 4
           \<and> select_message_count conv_id
                (update_session_count (clock env 1) conv_id
                   (insert_conversation conv_id (clock env 0) user_msg ai_msg t)) = Some 1))"

text \<open>
  The row of a session, and the row as one saved turn with the user text \<open>user_msg\<close>
  leaves it: touched and counted, with the title written when it was the first turn, and
  with the identifier and the creation time as they were.
\<close>

definition select_session :: "string \<Rightarrow> tables \<Rightarrow> session option" where
  "select_session conv_id t =
     (case filter (\<lambda>s. session_id s = conv_id) (conversation_sessions t) of
        [] \<Rightarrow> None
      | s # others \<Rightarrow> Some s)"

definition session_after_turn :: "call_env \<Rightarrow> string \<Rightarrow> session \<Rightarrow> session" where
  "session_after_turn env user_msg s =
     s\<lparr>last_updated := clock env 1,
       message_count := message_count s + 1,
       title := (if message_count s = 0 then title_for user_msg else title s)\<rparr>"

fun session_after_turns :: "(call_env \<times> string \<times> string) list \<Rightarrow> session \<Rightarrow> session" where
  "session_after_turns [] s = s"
| "session_after_turns ((env, user_msg, ai_msg) # rest) s =
     session_after_turns rest (session_after_turn env user_msg s)"

text \<open>No statement at all is refused in a call, and in each call of several.\<close>

definition calm_env :: "call_env \<Rightarrow> bool" where
  "calm_env env = (\<forall>i. \<not> raising env i)"

definition calm_turns :: "(call_env \<times> string \<times> string) list \<Rightarrow> bool" where
  "calm_turns turns = list_all (\<lambda>turn. calm_env (fst turn)) turns"

text \<open>The number of turns recorded for a conversation.\<close>

definition turn_count :: "string \<Rightarrow> tables \<Rightarrow> nat" where
  "turn_count conv_id t = length (filter (\<lambda>r. conversation_id r = conv_id) (conversations t))"

text \<open>
  The rows of \<open>conversations\<close> stand in the order of their insertion. The table is in
  order when the row numbers grow along it; the store is in order when both the committed
  tables and the tables that the statements see are.
\<close>

definition ordered_by_insertion :: "tables \<Rightarrow> bool" where
  "ordered_by_insertion t = sorted_wrt (<) (map row_id (conversations t))"

definition store_ordered :: "hande_ai \<Rightarrow> bool" where
  "store_ordered ai = (ordered_by_insertion (committed (connection_pool ai))
     \<and> ordered_by_insertion (visible (connection_pool ai)))"

text \<open>The turns of a conversation as pairs, in the order of the table.\<close>

definition turns_of :: "string \<Rightarrow> tables \<Rightarrow> (string \<times> string) list" where
  "turns_of conv_id t =
     map (\<lambda>r. (user_message r, ai_response r))
       (filter (\<lambda>r. conversation_id r = conv_id) (conversations t))"

text \<open>The same store with other time stamps on its turns.\<close>

definition restamp_tables :: "(turn \<Rightarrow> nat) \<Rightarrow> tables \<Rightarrow> tables" where
  "restamp_tables f t = t\<lparr>conversations := map (\<lambda>r. r\<lparr>timestamp := f r\<rparr>) (conversations t)\<rparr>"

definition restamp :: "(turn \<Rightarrow> nat) \<Rightarrow> hande_ai \<Rightarrow> hande_ai" where
  "restamp f ai =
     ai\<lparr>connection_pool :=
          \<lparr>committed = restamp_tables f (committed (connection_pool ai)),
           pending = map_option (restamp_tables f) (pending (connection_pool ai))\<rparr>\<rparr>"


text \<open>\<open>LIMIT n\<close>: a negative \<open>n\<close> is no limit in SQLite.\<close>

definition sql_limit :: "int \<Rightarrow> 'a list \<Rightarrow> 'a list" where
  "sql_limit n rows = (if n < 0 then rows else take (nat n) rows)"

text \<open>
  \<open>HandeAI.get_conversation_context\<close>: the rows of the current conversation,
  \<open>ORDER BY id DESC LIMIT ?\<close>, reversed.
\<close>

definition get_conversation_context :: "bool \<Rightarrow> int \<Rightarrow> hande_ai \<Rightarrow> (string \<times> string) list" where
  "get_conversation_context raises limit ai =
     (case current_conversation_id ai of
        None \<Rightarrow> []
      | Some conv_id \<Rightarrow>
          if conv_id = [] then []
          else if raises then []
          else rev (map (\<lambda>r. (user_message r, ai_response r))
                 (sql_limit limit
                    (rev (sort_key row_id
                       (filter (\<lambda>r. conversation_id r = conv_id)
                          (conversations (visible (connection_pool ai)))))))))"

subsection \<open>The store of Hande.py\<close>

text \<open>The sessions of Hande.py have no counter; the turns have the same columns.\<close>

record ts_session =
  ts_session_id :: string
  ts_title :: string
  ts_created_at :: nat
  ts_last_updated :: nat

record ts_tables =
  ts_conversations :: "turn list"
  ts_sessions :: "ts_session list"

definition ts_insert_conversation :: "string \<Rightarrow> string \<Rightarrow> string \<Rightarrow> nat \<Rightarrow> ts_tables \<Rightarrow> ts_tables" where
  "ts_insert_conversation conv_id user_msg ai_msg stamp t =
     t\<lparr>ts_conversations := ts_conversations t
         @ [\<lparr>row_id = Suc (max_row_id (ts_conversations t)), conversation_id = conv_id,
             timestamp = stamp, user_message = user_msg, ai_response = ai_msg\<rparr>]\<rparr>"

text \<open>\<open>INSERT OR REPLACE\<close>: a row with the same key is deleted, then the row is inserted.\<close>

definition insert_or_replace_session :: "ts_session \<Rightarrow> ts_tables \<Rightarrow> ts_tables" where
  "insert_or_replace_session row t =
     t\<lparr>ts_sessions :=
         filter (\<lambda>s. ts_session_id s \<noteq> ts_session_id row) (ts_sessions t) @ [row]\<rparr>"

record thread_safe_ai =
  ts_current_conversation_id :: "string option"
  db_conn :: "ts_tables connection"

text \<open>
  \<open>ThreadSafeHandeAI._save_to_db\<close>: the INSERT of the turn (statement 0), the
  \<open>INSERT OR REPLACE\<close> of the session (1), \<open>commit()\<close> (2). The \<open>except\<close> branch prints
  the error and leaves the connection as it is. The save is submitted by
  \<open>save_conversation_async\<close> only, after it has made sure that there is a current
  conversation.
\<close>

definition save_to_db :: "call_env \<Rightarrow> string \<Rightarrow> string \<Rightarrow> thread_safe_ai \<Rightarrow> thread_safe_ai" where
  "save_to_db env user_msg ai_msg ai =
     (let conv_id = (case ts_current_conversation_id ai of None \<Rightarrow> [] | Some i \<Rightarrow> i);
          r1 = execute_dml (raising env 0)
                 (ts_insert_conversation conv_id user_msg ai_msg (clock env 0)) (db_conn ai);
          r2 = and_then r1
                 (execute_dml (raising env 1)
                    (insert_or_replace_session
                       \<lparr>ts_session_id = conv_id, ts_title = take 30 user_msg,
                        ts_created_at = clock env 0, ts_last_updated = clock env 0\<rparr>));
          r3 = and_then r2 (connection_commit (raising env 2))
      in ai\<lparr>db_conn := snd r3\<rparr>)"

text \<open>
  \<open>ThreadSafeHandeAI.save_conversation_async\<close>, with the submitted save run at once.
\<close>

definition save_conversation_async :: "call_env \<Rightarrow> string \<Rightarrow> string \<Rightarrow> thread_safe_ai \<Rightarrow> thread_safe_ai" where
  "save_conversation_async env user_msg ai_msg ai =
     save_to_db env user_msg ai_msg
       (if truthy (ts_current_conversation_id ai) then ai
        else ai\<lparr>ts_current_conversation_id := Some (take 8 (uuid4 env))\<rparr>)"

section \<open>Example inputs\<close>

text \<open>
  A backend where every model raises; one where only \<open>llama3:8b\<close> answers, with
  "Hello", while the stop event is raised after \<open>k\<close> characters; the same with an
  executor that is shut down, so that the submit of the save raises; and one where the
  first model returns a reply without content and every other model would answer "Hello".
\<close>

definition silent_env :: worker_env where
  "silent_env = \<lparr>search_web_fast = (\<lambda>query. []), chat = (\<lambda>model prompt query. Chat_raises),
     strftime_now = ''09:00 AM, Monday'', is_set = (\<lambda>i. False), submit_raises = False\<rparr>"

definition hello_env :: "nat \<Rightarrow> worker_env" where
  "hello_env k = \<lparr>search_web_fast = (\<lambda>query. []),
     chat = (\<lambda>model prompt query.
        if model = ''llama3:8b'' then Chat_returns (Content (Some ''Hello'')) else Chat_raises),
     strftime_now = ''09:00 AM, Monday'', is_set = raised_after k, submit_raises = False\<rparr>"


definition malformed_env :: worker_env where
  "malformed_env = \<lparr>search_web_fast = (\<lambda>query. []),
     chat = (\<lambda>model prompt query.
        if model = ''llama3.2'' then Chat_returns No_content
        else Chat_returns (Content (Some ''Hello''))),
     strftime_now = ''09:00 AM, Monday'', is_set = (\<lambda>i. False), submit_raises = False\<rparr>"


definition busy_gui :: gui where
  "busy_gui =
     \<lparr>message_entry = ''second question'', chat_container = [(''first question'', True)],
      send_btn_packed = False, message_queue = [Status Thinking], stop_event = False,
      response_thread = Some \<lparr>args_message = ''first question'', is_alive = True\<rparr>,
      started = [''first question'']\<rparr>"

text \<open>The worker of Hande_GUI.py with a backend where every model raises.\<close>

definition silent_gui_env :: gui_env where
  "silent_gui_env =
     \<lparr>context_lookup = \<lparr>done_at = 20, outcome = []\<rparr>,
      web_lookup = (\<lambda>query. \<lparr>done_at = 300, outcome = []\<rparr>),
      ollama_chat = (\<lambda>model prompt query. Chat_raises),
      date_now = ''Monday, January 06, 2025'', time_now = ''09:00 AM'',
      stop_is_set = (\<lambda>i. False),
      fallback = ''Quick response mode active! What do you need help with?'',
      gui_submit_raises = (\<lambda>i. False)\<rparr>"

text \<open>
  Surroundings of a call of the store: \<open>calm t\<close> refuses no statement and its clock
  reads \<open>t\<close>, \<open>t + 1\<close>, ...; \<open>refusing n t\<close> refuses the statement number \<open>n\<close>.
  \<open>new_chat\<close> is the empty store of Hande_GUI.py after "new chat", \<open>three_turns\<close> are
  three turns to save, \<open>empty_ts_store\<close> is the empty store of Hande.py with a current
  conversation, and \<open>orphaned\<close> is that store after a save whose session statement was
  refused.
\<close>

definition calm :: "nat \<Rightarrow> call_env" where
  "calm t = \<lparr>raising = (\<lambda>i. False), uuid4 = ''3f2504e0-4f89-41d3-9a0c-0305e82c3301'',
     clock = (\<lambda>i. t + i)\<rparr>"

definition refusing :: "nat \<Rightarrow> nat \<Rightarrow> call_env" where
  "refusing n t = \<lparr>raising = (\<lambda>i. i = n), uuid4 = ''3f2504e0-4f89-41d3-9a0c-0305e82c3301'',
     clock = (\<lambda>i. t + i)\<rparr>"

definition empty_store :: hande_ai where
  "empty_store =
     \<lparr>current_conversation_id = None,
      connection_pool =
        \<lparr>committed = \<lparr>conversations = [], conversation_sessions = [], sqlite_sequence = 0\<rparr>,
         pending = None\<rparr>\<rparr>"

definition new_chat :: hande_ai where
  "new_chat = HandeAI_create_new_conversation (calm 100) empty_store"

definition three_turns :: "(call_env \<times> string \<times> string) list" where
  "three_turns = [(calm 200, ''q1'', ''a1''), (calm 300, ''q2'', ''a2''), (calm 400, ''q3'', ''a3'')]"


definition empty_ts_store :: "string \<Rightarrow> thread_safe_ai" where
  "empty_ts_store conv_id =
     \<lparr>ts_current_conversation_id = Some conv_id,
      db_conn = \<lparr>committed = \<lparr>ts_conversations = [], ts_sessions = []\<rparr>, pending = None\<rparr>\<rparr>"

definition orphaned :: thread_safe_ai where
  "orphaned = save_to_db (refusing 1 100) ''first question'' ''first answer''
                (empty_ts_store ''a1b2c3d4'')"

section \<open>Properties of the text functions\<close>

lemma startswith_prefix: "startswith s w = prefix w s"
  by (induction s w rule: startswith.induct) auto

lemma contains_sublist: "contains s w = sublist w s"
proof (induction s)
  case Nil
  show ?case by simp
next
  case (Cons c cs)
  then show ?case
    by (cases w) (auto simp: startswith_prefix sublist_Cons_right)
qed

lemma lower_char_idem: "lower_char (lower_char c) = lower_char c"
  unfolding lower_char_def Let_def by auto

lemma lower_idem: "lower (lower s) = lower s"
  by (simp add: lower_def lower_char_idem)

text \<open>
  C10. \<open>needs_web_search\<close> is a function of the query alone: it holds exactly when some
  word of the fixed lexicon is a substring of the lower-cased query, so a query and its
  lower-cased form get the same answer. "What's the weather today?" needs a web search
  and "Explain recursion" does not, with the lexicon of either program.
\<close>

theorem needs_web_search_keyword_match:
  "ThreadSafeHandeAI_needs_web_search q = list_ex (\<lambda>w. sublist w (lower q)) indicators
   \<and> HandeAI_needs_web_search q = list_ex (\<lambda>w. sublist w (lower q)) current_indicators
   \<and> ThreadSafeHandeAI_needs_web_search (lower q) = ThreadSafeHandeAI_needs_web_search q
   \<and> HandeAI_needs_web_search (lower q) = HandeAI_needs_web_search q
   \<and> ThreadSafeHandeAI_needs_web_search ''What's the weather today?''
   \<and> HandeAI_needs_web_search ''What's the weather today?''
   \<and> \<not> ThreadSafeHandeAI_needs_web_search ''Explain recursion''
   \<and> \<not> HandeAI_needs_web_search ''Explain recursion''"
proof -
  have a: "ThreadSafeHandeAI_needs_web_search q = list_ex (\<lambda>w. sublist w (lower q)) indicators"
    for q
    by (simp add: ThreadSafeHandeAI_needs_web_search_def contains_sublist)
  have b: "HandeAI_needs_web_search q = list_ex (\<lambda>w. sublist w (lower q)) current_indicators"
    for q
    by (simp add: HandeAI_needs_web_search_def contains_sublist)
  have c: "ThreadSafeHandeAI_needs_web_search ''What's the weather today?''"
    by code_simp
  have d: "HandeAI_needs_web_search ''What's the weather today?''"
    by code_simp
  have e: "\<not> ThreadSafeHandeAI_needs_web_search ''Explain recursion''"
    by code_simp
  have f: "\<not> HandeAI_needs_web_search ''Explain recursion''"
    by code_simp
  have g: "ThreadSafeHandeAI_needs_web_search (lower q) = ThreadSafeHandeAI_needs_web_search q"
    by (simp only: a lower_idem)
  have h: "HandeAI_needs_web_search (lower q) = HandeAI_needs_web_search q"
    by (simp only: b lower_idem)
  from a [of q] b [of q] g h c d e f show ?thesis
    by blast
qed

theorem needs_web_search_keyword_match_witness:
  "ThreadSafeHandeAI_needs_web_search ''TODAY'' = ThreadSafeHandeAI_needs_web_search ''today''
   \<and> HandeAI_needs_web_search ''Stock PRICE'' = HandeAI_needs_web_search ''stock price''"
proof -
  have l1: "lower ''TODAY'' = ''today''" by code_simp
  have l2: "lower ''Stock PRICE'' = ''stock price''" by code_simp
  show ?thesis
    using needs_web_search_keyword_match [of "''TODAY''"]
      needs_web_search_keyword_match [of "''Stock PRICE''"]
    by (simp only: l1 l2)
qed

section \<open>The generation worker\<close>

lemma try_models_all_raise:
  "list_all (\<lambda>m. call m = Chat_raises) ms \<Longrightarrow> try_models call ms = (ms, None)"
  by (induction ms) simp_all

lemma try_models_first_answer:
  "list_all (\<lambda>m. call m = Chat_raises) failed \<Longrightarrow> call answering = Chat_returns response \<Longrightarrow>
   try_models call (failed @ answering # later) = (failed @ [answering], Some response)"
  by (induction failed) simp_all

lemma try_models_None:
  "snd (try_models call ms) = None \<longleftrightarrow> list_all (\<lambda>m. call m = Chat_raises) ms"
  by (induction ms) (auto split: chat_result.splits prod.splits)









lemma stream_chars_no_error: "Error m \<notin> set (stream_chars stop i cs)"
  by (induction cs arbitrary: i) simp_all




subsection \<open>The run of the worker, by the reply of the model loop\<close>

lemma worker_unanswered:
  "try_models (model_call env q) models = (tried, None) \<Longrightarrow>
   generate_response_safe env q =
     \<lparr>events = statuses q @ [Error No_models_available], contacted = tried, saved = None\<rparr>"
  by (simp add: generate_response_safe_def)

lemma worker_empty_reply:
  "try_models (model_call env q) models = (tried, Some Empty_reply) \<Longrightarrow>
   generate_response_safe env q =
     \<lparr>events = statuses q @ [Error No_models_available], contacted = tried, saved = None\<rparr>"
  by (simp add: generate_response_safe_def)

lemma worker_no_content:
  "try_models (model_call env q) models = (tried, Some No_content) \<Longrightarrow>
   generate_response_safe env q =
     \<lparr>events = statuses q @ [Error Encountered_error], contacted = tried, saved = None\<rparr>"
  by (simp add: generate_response_safe_def)

lemma worker_content_none:
  "try_models (model_call env q) models = (tried, Some (Content None)) \<Longrightarrow>
   generate_response_safe env q =
     \<lparr>events = statuses q @ [StreamStart, Error Encountered_error],
      contacted = tried, saved = None\<rparr>"
  by (simp add: generate_response_safe_def)

lemma worker_answered:
  "try_models (model_call env q) models = (tried, Some (Content (Some r))) \<Longrightarrow>
   generate_response_safe env q =
     \<lparr>events = statuses q @ [StreamStart] @ stream_chars (is_set env) 0 r @ [Complete r]
               @ (if submit_raises env then [Error Encountered_error] else []),
      contacted = tried,
      saved = (if submit_raises env then None else Some (q, r))\<rparr>"
  by (simp add: generate_response_safe_def)

lemma try_models_cases:
  obtains (unanswered) tried where "try_models call ms = (tried, None)"
  | (empty) tried where "try_models call ms = (tried, Some Empty_reply)"
  | (no_content) tried where "try_models call ms = (tried, Some No_content)"
  | (content_none) tried where "try_models call ms = (tried, Some (Content None))"
  | (answered) tried r where "try_models call ms = (tried, Some (Content (Some r)))"
proof -
  obtain tried response where t: "try_models call ms = (tried, response)" by fastforce
  show ?thesis
  proof (cases response)
    case None
    with t unanswered show ?thesis by simp
  next
    case (Some rep)
    show ?thesis
    proof (cases rep)
      case Empty_reply
      with t Some empty show ?thesis by simp
    next
      case No_content
      with t Some no_content show ?thesis by simp
    next
      case (Content c)
      with t Some content_none answered show ?thesis by (cases c) simp_all
    qed
  qed
qed





text \<open>
  What the worker puts when the submit of the save raises: the error event comes after
  \<open>complete\<close>, and no save is submitted.
\<close>

lemma worker_events_refused_submit:
  assumes "try_models (model_call env q) models = (tried, Some (Content (Some r)))"
    and "submit_raises env"
  shows "events (generate_response_safe env q)
         = statuses q @ [StreamStart] @ stream_chars (is_set env) 0 r
           @ [Complete r, Error Encountered_error]"
    and "saved (generate_response_safe env q) = None"
  using assms by (simp_all add: worker_answered)

subsection \<open>The run of the worker of Hande_GUI.py\<close>


lemma gui_unanswered:
  assumes "try_models (gui_model_call env q) models_to_try = (tried, None)"
    and "submits_accepted env q"
  shows "generate_response_streaming env q = Inr (typed_fallback env tried)"
  using assms by (simp add: generate_response_streaming_def submits_accepted_def)

lemma gui_contacted:
  assumes "generate_response_streaming env q = Inr run"
  shows "models_contacted run = fst (try_models (gui_model_call env q) models_to_try)"
proof (cases rule: try_models_cases [of "gui_model_call env q" models_to_try])
  case (unanswered tried)
  with assms show ?thesis
    by (auto simp: generate_response_streaming_def typed_fallback_def split: if_splits)
next
  case (empty tried)
  with assms show ?thesis
    by (auto simp: generate_response_streaming_def typed_fallback_def split: if_splits)
next
  case (no_content tried)
  with assms show ?thesis
    by (auto simp: generate_response_streaming_def typed_fallback_def split: if_splits)
next
  case (content_none tried)
  with assms show ?thesis
    by (auto simp: generate_response_streaming_def typed_fallback_def split: if_splits)
next
  case (answered tried r)
  with assms show ?thesis
    by (auto simp: generate_response_streaming_def Let_def split: if_splits)
qed

lemma gui_refused_save:
  assumes "try_models (gui_model_call env q) models_to_try = (tried, Some (Content (Some r)))"
    and "\<not> gui_submit_raises env 0"
    and "\<not> (HandeAI_needs_web_search q \<and> gui_submit_raises env 1)"
    and "gui_submit_raises env 2"
  shows "generate_response_streaming env q =
     Inr \<lparr>typed = type_chars (stop_is_set env) 0 r
                  @ type_chars (stop_is_set env) (length (type_chars (stop_is_set env) 0 r))
                      (fallback env),
          models_contacted = tried, submitted_save = None\<rparr>"
  using assms by (simp add: generate_response_streaming_def Let_def)

subsection \<open>Cancellation\<close>




subsection \<open>The order of the candidates\<close>

lemma worker_contacted:
  "contacted (generate_response_safe env q) = fst (try_models (model_call env q) models)"
  by (cases rule: try_models_cases [of "model_call env q" models])
    (simp_all add: worker_unanswered worker_empty_reply worker_no_content worker_content_none
      worker_answered)

lemma worker_error_iff:
  "Error No_models_available \<in> set (events (generate_response_safe env q))
   \<longleftrightarrow> snd (try_models (model_call env q) models) = None
       \<or> snd (try_models (model_call env q) models) = Some Empty_reply"
  by (cases rule: try_models_cases [of "model_call env q" models])
    (simp_all add: worker_unanswered worker_empty_reply worker_no_content worker_content_none
      worker_answered statuses_def stream_chars_no_error)

text \<open>
  The first model returns a reply without content and every other model would answer
  "Hello". The loop stops at the first model, the read of the content raises, and the turn
  ends with the error event of the \<open>except\<close> branch: no later candidate is contacted
  although not every candidate fails.
\<close>

theorem malformed_reply_counterexample:
  "contacted (generate_response_safe malformed_env ''hi'') = [''llama3.2'']
   \<and> events (generate_response_safe malformed_env ''hi'')
     = [Status Thinking, Status Generating_response, Error Encountered_error]
   \<and> model_call malformed_env ''hi'' ''llama3.2:1b'' = Chat_returns (Content (Some ''Hello''))
   \<and> \<not> all_raise (model_call malformed_env ''hi'') models"
  by code_simp

text \<open>
  C5, as the loop is written. The candidates are tried in the order of the list; a
  candidate is passed over only when its call raises, and the loop stops at the first
  candidate whose call returns, whatever it returns and whatever the later candidates would
  do. So all candidates were contacted and there is no reply exactly when every call
  raises. In \<open>generate_response_safe\<close> the error event \<open>No_models_available\<close> is put if
  and only if there is no reply or the reply is empty; a reply on which the read of the
  content raises ends the turn with the error event of the \<open>except\<close> branch; a reply with
  a text ends it with \<open>Complete\<close> of that text when the submit of the save does not raise.
  \<open>generate_response_streaming\<close> runs the same loop over its own list; when every call
  raises it types the fallback sentence and submits no save.
\<close>

theorem model_fallback_order:
  "(all_raise call ms \<longrightarrow> try_models call ms = (ms, None))
   \<and> (all_raise call failed \<and> call answering = Chat_returns response
      \<longrightarrow> try_models call (failed @ answering # later) = (failed @ [answering], Some response))
   \<and> (snd (try_models call ms) = None \<longleftrightarrow> all_raise call ms)
   \<and> contacted (generate_response_safe env q) = fst (try_models (model_call env q) models)
   \<and> (Error No_models_available \<in> set (events (generate_response_safe env q))
      \<longleftrightarrow> snd (try_models (model_call env q) models) = None
          \<or> snd (try_models (model_call env q) models) = Some Empty_reply)
   \<and> (snd (try_models (model_call env q) models) = Some No_content
      \<longrightarrow> events (generate_response_safe env q) = statuses q @ [Error Encountered_error])
   \<and> (snd (try_models (model_call env q) models) = Some (Content (Some r))
        \<and> \<not> submit_raises env
      \<longrightarrow> last (events (generate_response_safe env q)) = Complete r)
   \<and> (generate_response_streaming genv q = Inr run
      \<longrightarrow> models_contacted run = fst (try_models (gui_model_call genv q) models_to_try))
   \<and> (all_raise (gui_model_call genv q) models_to_try \<and> submits_accepted genv q
      \<longrightarrow> generate_response_streaming genv q = Inr (typed_fallback genv models_to_try))"
proof (intro conjI impI)
  show "snd (try_models call ms) = None \<longleftrightarrow> all_raise call ms"
    unfolding all_raise_def by (rule try_models_None)
  show "contacted (generate_response_safe env q) = fst (try_models (model_call env q) models)"
    by (rule worker_contacted)
  show "Error No_models_available \<in> set (events (generate_response_safe env q))
      \<longleftrightarrow> snd (try_models (model_call env q) models) = None
          \<or> snd (try_models (model_call env q) models) = Some Empty_reply"
    by (rule worker_error_iff)
next
  assume "all_raise call ms"
  then show "try_models call ms = (ms, None)"
    unfolding all_raise_def by (rule try_models_all_raise)
next
  assume "all_raise call failed \<and> call answering = Chat_returns response"
  then show "try_models call (failed @ answering # later) = (failed @ [answering], Some response)"
    unfolding all_raise_def by (simp add: try_models_first_answer)
next
  assume "snd (try_models (model_call env q) models) = Some No_content"
  then have "try_models (model_call env q) models
             = (fst (try_models (model_call env q) models), Some No_content)"
    by (metis prod.collapse)
  then show "events (generate_response_safe env q) = statuses q @ [Error Encountered_error]"
    by (simp add: worker_no_content)
next
  assume h: "snd (try_models (model_call env q) models) = Some (Content (Some r))
        \<and> \<not> submit_raises env"
  then have "try_models (model_call env q) models
             = (fst (try_models (model_call env q) models), Some (Content (Some r)))"
    by (metis prod.collapse)
  with h show "last (events (generate_response_safe env q)) = Complete r"
    by (simp add: worker_answered)
next
  assume "generate_response_streaming genv q = Inr run"
  then show "models_contacted run = fst (try_models (gui_model_call genv q) models_to_try)"
    by (rule gui_contacted)
next
  assume h: "all_raise (gui_model_call genv q) models_to_try \<and> submits_accepted genv q"
  then have "try_models (gui_model_call genv q) models_to_try = (models_to_try, None)"
    unfolding all_raise_def by (simp add: try_models_all_raise)
  with h show "generate_response_streaming genv q = Inr (typed_fallback genv models_to_try)"
    by (simp add: gui_unanswered)
qed

theorem model_fallback_order_witness:
  "contacted (generate_response_safe (hello_env 9) ''hi'') = [''llama3.2'', ''llama3.2:1b'', ''llama3:8b'']
   \<and> last (events (generate_response_safe (hello_env 9) ''hi'')) = Complete ''Hello''
   \<and> Error No_models_available \<in> set (events (generate_response_safe silent_env ''hi''))
   \<and> events (generate_response_safe malformed_env ''hi'')
     = statuses ''hi'' @ [Error Encountered_error]
   \<and> generate_response_streaming silent_gui_env ''hi''
     = Inr (typed_fallback silent_gui_env models_to_try)"
proof -
  have t: "try_models (model_call (hello_env 9) ''hi'') models
           = ([''llama3.2'', ''llama3.2:1b'', ''llama3:8b''], Some (Content (Some ''Hello'')))"
    by code_simp
  have s: "\<not> submit_raises (hello_env 9)" by (simp add: hello_env_def)
  have u: "try_models (model_call silent_env ''hi'') models = (models, None)"
    by code_simp
  have m: "try_models (model_call malformed_env ''hi'') models = ([''llama3.2''], Some No_content)"
    by code_simp
  have gs: "all_raise (gui_model_call silent_gui_env ''hi'') models_to_try"
    by code_simp
  have ga: "submits_accepted silent_gui_env ''hi''"
    by (simp add: submits_accepted_def silent_gui_env_def)
  note t1 = model_fallback_order [of "model_call (hello_env 9) ''hi''" models
      "[''llama3.2'', ''llama3.2:1b'']" "''llama3:8b''" "Content (Some ''Hello'')" "[''gemma2:2b'']"
      "hello_env 9" "''hi''" "''Hello''" silent_gui_env "typed_fallback silent_gui_env models_to_try"]
  note t2 = model_fallback_order [of "model_call silent_env ''hi''" models
      "[''llama3.2'']" "''llama3:8b''" "Content (Some ''Hello'')" "[]"
      silent_env "''hi''" "''Hello''" silent_gui_env "typed_fallback silent_gui_env models_to_try"]
  note t3 = model_fallback_order [of "model_call malformed_env ''hi''" models
      "[]" "''llama3.2''" "No_content" "[]"
      malformed_env "''hi''" "''Hello''" silent_gui_env "typed_fallback silent_gui_env models_to_try"]
  from t1 t s have "contacted (generate_response_safe (hello_env 9) ''hi'')
        = [''llama3.2'', ''llama3.2:1b'', ''llama3:8b'']
      \<and> last (events (generate_response_safe (hello_env 9) ''hi'')) = Complete ''Hello''"
    by simp
  moreover from t2 u have "Error No_models_available \<in> set (events (generate_response_safe silent_env ''hi''))"
    by simp
  moreover from t3 m have "events (generate_response_safe malformed_env ''hi'')
     = statuses ''hi'' @ [Error Encountered_error]"
    by simp
  moreover from t1 gs ga have "generate_response_streaming silent_gui_env ''hi''
     = Inr (typed_fallback silent_gui_env models_to_try)"
    by blast
  ultimately show ?thesis by blast
qed

section \<open>Context assembly and sending\<close>

lemma future_result_bound: "fst (future_result now timeout f) \<le> now + timeout"
  by (simp add: future_result_def)

text \<open>
  The context lookup takes 600 ms and the web lookup 1700 ms: the first wait ends by
  timeout at 500 ms, the second wait starts then and ends by timeout at 1500 ms, which is
  more than the larger of the two timeouts.
\<close>

theorem assemble_context_counterexample:
  "assemble_context \<lparr>done_at = 600, outcome = []\<rparr> (Some \<lparr>done_at = 1700, outcome = []\<rparr>)
     = ([], [], 1500)
   \<and> \<not> blocked_until (assemble_context \<lparr>done_at = 600, outcome = []\<rparr>
                         (Some \<lparr>done_at = 1700, outcome = []\<rparr>))
        \<le> max recent_context_timeout web_timeout"
  by code_simp

text \<open>
  C3, as the waits are written. However long the lookups take, the worker is blocked for at most the sum
  of the two timeouts (1500 ms), because the two waits follow each other; when the query
  needs no web lookup it is blocked for at most the context timeout (500 ms).
\<close>

theorem assemble_context_bound:
  "blocked_until (assemble_context context_future web_future)
     \<le> recent_context_timeout + web_timeout
   \<and> blocked_until (assemble_context context_future None) \<le> recent_context_timeout"
proof -
  obtain t1 h where c: "future_result 0 recent_context_timeout context_future = (t1, h)"
    by fastforce
  from future_result_bound [of 0 recent_context_timeout context_future] c
  have t1: "t1 \<le> recent_context_timeout" by simp
  have none: "blocked_until (assemble_context context_future None) = t1"
    by (simp add: assemble_context_def blocked_until_def c)
  have "blocked_until (assemble_context context_future web_future)
     \<le> recent_context_timeout + web_timeout"
  proof (cases web_future)
    case None
    with none t1 show ?thesis by simp
  next
    case (Some web)
    obtain t2 r where w: "future_result t1 web_timeout web = (t2, r)" by fastforce
    from future_result_bound [of t1 web_timeout web] w have "t2 \<le> t1 + web_timeout" by simp
    moreover have "blocked_until (assemble_context context_future web_future) = t2"
      by (cases r) (simp_all add: assemble_context_def blocked_until_def c Some w)
    ultimately show ?thesis using t1 by simp
  qed
  with none t1 show ?thesis by simp
qed

theorem assemble_context_bound_witness:
  "blocked_until (assemble_context \<lparr>done_at = 600, outcome = []\<rparr>
                    (Some \<lparr>done_at = 1700, outcome = []\<rparr>)) \<le> 1500
   \<and> blocked_until (assemble_context \<lparr>done_at = 600, outcome = []\<rparr> None) \<le> 500"
  using assemble_context_bound [of "\<lparr>done_at = 600, outcome = []\<rparr>"
      "Some \<lparr>done_at = 1700, outcome = []\<rparr>"]
  by (simp add: recent_context_timeout_def web_timeout_def)

lemma strip_busy: "strip (message_entry busy_gui) = ''second question''"
  by code_simp

text \<open>
  A second question is sent while the worker of the first is alive: \<open>send_message\<close> of
  Hande.py returns normally and leaves the window as it was; it raises no
  \<open>AlreadyGenerating\<close> error.
\<close>

theorem send_while_generating_counterexample:
  "generating busy_gui
   \<and> ThreadSafeHandeGUI_send_message busy_gui = Inr busy_gui
   \<and> ThreadSafeHandeGUI_send_message busy_gui \<noteq> Inl AlreadyGenerating"
proof -
  have "generating busy_gui" by (simp add: generating_def busy_gui_def)
  then show ?thesis by (simp add: ThreadSafeHandeGUI_send_message_def Let_def)
qed

text \<open>
  C4, as \<open>send_message\<close> is written. In Hande.py, a call of \<open>send_message\<close> while the worker thread of a
  prior turn is alive returns without an error and changes nothing: the message is not
  queued, no worker is started, the entry keeps its text.
\<close>

theorem send_while_generating_dropped:
  "generating g \<Longrightarrow> ThreadSafeHandeGUI_send_message g = Inr g"
  by (simp add: ThreadSafeHandeGUI_send_message_def Let_def)

theorem send_while_generating_dropped_witness:
  "generating busy_gui \<and> ThreadSafeHandeGUI_send_message busy_gui = Inr busy_gui"
proof -
  have h: "generating busy_gui" by (simp add: generating_def busy_gui_def)
  from send_while_generating_dropped [OF h] h show ?thesis by simp
qed

text \<open>
  \<open>send_message\<close> of Hande_GUI.py in the same window: it starts a second worker.
\<close>

lemma HandeGUI_send_starts_second_worker:
  "HandeGUI_send_message busy_gui
     = Inr (busy_gui\<lparr>chat_container := [(''first question'', True), (''second question'', True)],
                    message_entry := [],
                    response_thread := Some \<lparr>args_message = ''second question'', is_alive = True\<rparr>,
                    started := [''first question'', ''second question'']\<rparr>)"
  by (simp add: HandeGUI_send_message_def Let_def strip_busy) (simp add: busy_gui_def)

section \<open>The transaction of \<open>save_conversation\<close>\<close>

lemma execute_begin_committed: "committed (snd (execute_begin r c)) = committed c"
  by (simp add: execute_begin_def)

lemma execute_dml_committed: "committed (snd (execute_dml r f c)) = committed c"
  by (simp add: execute_dml_def Let_def)

lemma and_then_committed:
  "(\<And>c'. committed (snd (f c')) = committed c') \<Longrightarrow>
   committed (snd (and_then r f)) = committed (snd r)"
  by (simp add: and_then_def)

lemma execute_commit_refused: "\<not> fst (execute_commit r c) \<Longrightarrow> snd (execute_commit r c) = c"
  by (auto simp: execute_commit_def split: if_splits)

lemma save_transaction_refused:
  assumes "\<not> fst (save_transaction env cid u a c)"
  shows "committed (snd (save_transaction env cid u a c)) = committed c"
proof -
  define r4 where "r4 =
    and_then (and_then (and_then (execute_begin (raising env 0) c)
      (execute_dml (raising env 1) (insert_conversation cid (clock env 0) u a)))
      (execute_dml (raising env 2) (update_session_count (clock env 1) cid)))
      (\<lambda>c3. if raising env 3 then (False, c3)
             else if select_message_count cid (visible c3) = Some 1
             then execute_dml (raising env 4) (update_session_title (title_for u) cid) c3
             else (True, c3))"
  have s: "save_transaction env cid u a c = and_then r4 (execute_commit (raising env 5))"
    by (simp add: save_transaction_def r4_def Let_def)
  have c4: "committed (snd r4) = committed c"
    unfolding r4_def
    by (simp add: and_then_committed execute_dml_committed execute_begin_committed)
  show ?thesis
  proof (cases "fst r4")
    case True
    with assms s have "\<not> fst (execute_commit (raising env 5) (snd r4))"
      by (simp add: and_then_def)
    then have "snd (execute_commit (raising env 5) (snd r4)) = snd r4"
      by (rule execute_commit_refused)
    with True s c4 show ?thesis by (simp add: and_then_def)
  next
    case False
    with s c4 show ?thesis by (simp add: and_then_def)
  qed
qed

lemma save_transaction_completed:
  assumes "\<not> in_transaction c" and "undisturbed env cid u a (committed c)"
  shows "save_transaction env cid u a c
         = (True, \<lparr>committed = turn_update env cid u a (committed c), pending = None\<rparr>)"
proof (cases "select_message_count cid
                (update_session_count (clock env 1) cid
                   (insert_conversation cid (clock env 0) u a (committed c))) = Some 1")
  case True
  with assms show ?thesis
    by (simp add: save_transaction_def and_then_def execute_begin_def execute_dml_def
        execute_commit_def in_transaction_def visible_def undisturbed_def turn_update_def Let_def)
next
  case False
  with assms show ?thesis
    by (simp add: save_transaction_def and_then_def execute_begin_def execute_dml_def
        execute_commit_def in_transaction_def visible_def undisturbed_def turn_update_def Let_def)
qed

lemma save_transaction_disturbed:
  assumes "in_transaction c \<or> \<not> undisturbed env cid u a (committed c)"
  shows "\<not> fst (save_transaction env cid u a c)"
proof -
  let ?sel = "select_message_count cid
                (update_session_count (clock env 1) cid
                   (insert_conversation cid (clock env 0) u a (committed c))) = Some 1"
  consider (t) "in_transaction c"
    | (r0) "\<not> in_transaction c" "raising env 0"
    | (r1) "\<not> in_transaction c" "\<not> raising env 0" "raising env 1"
    | (r2) "\<not> in_transaction c" "\<not> raising env 0" "\<not> raising env 1" "raising env 2"
    | (r3) "\<not> in_transaction c" "\<not> raising env 0" "\<not> raising env 1" "\<not> raising env 2"
           "raising env 3"
    | (r4) "\<not> in_transaction c" "\<not> raising env 0" "\<not> raising env 1" "\<not> raising env 2"
           "\<not> raising env 3" "raising env 4" "?sel"
    | (r5) "\<not> in_transaction c" "\<not> raising env 0" "\<not> raising env 1" "\<not> raising env 2"
           "\<not> raising env 3" "raising env 5"
    using assms unfolding undisturbed_def by blast
  then show ?thesis
  proof cases
    case t
    then show ?thesis
      by (simp add: save_transaction_def and_then_def execute_begin_def Let_def)
  next
    case r0
    then show ?thesis
      by (simp add: save_transaction_def and_then_def execute_begin_def Let_def)
  next
    case r1
    then show ?thesis
      by (simp add: save_transaction_def and_then_def execute_begin_def execute_dml_def
          in_transaction_def Let_def)
  next
    case r2
    then show ?thesis
      by (simp add: save_transaction_def and_then_def execute_begin_def execute_dml_def
          in_transaction_def Let_def)
  next
    case r3
    then show ?thesis
      by (simp add: save_transaction_def and_then_def execute_begin_def execute_dml_def
          in_transaction_def Let_def)
  next
    case r4
    then show ?thesis
      by (simp add: save_transaction_def and_then_def execute_begin_def execute_dml_def
          in_transaction_def visible_def Let_def)
  next
    case r5
    then show ?thesis
      by (simp add: save_transaction_def and_then_def execute_begin_def execute_dml_def
          execute_commit_def in_transaction_def visible_def Let_def)
  qed
qed

section \<open>The session row under a saved turn\<close>

lemma filter_key_distinct:
  "distinct (map f xs) \<Longrightarrow>
   filter (\<lambda>x. f x = k) xs = [] \<or> (\<exists>s. filter (\<lambda>x. f x = k) xs = [s])"
proof (induction xs)
  case Nil
  show ?case by simp
next
  case (Cons x xs)
  then have fresh: "f x \<notin> f ` set xs" and rest: "distinct (map f xs)" by simp_all
  show ?case
  proof (cases "f x = k")
    case True
    with fresh have "\<forall>y \<in> set xs. f y \<noteq> k" by (metis image_eqI)
    then have "filter (\<lambda>y. f y = k) xs = []" by (simp add: filter_empty_conv)
    with True show ?thesis by simp
  next
    case False
    with Cons.IH [OF rest] show ?thesis by simp
  qed
qed

lemma select_session_unique:
  assumes "distinct (map session_id (conversation_sessions t))"
    and "select_session cid t = Some s" and "x \<in> set (conversation_sessions t)"
    and "session_id x = cid"
  shows "x = s"
proof -
  let ?rows = "filter (\<lambda>y. session_id y = cid) (conversation_sessions t)"
  from assms(3,4) have x: "x \<in> set ?rows" by simp
  from assms(2) obtain rest where "?rows = s # rest"
    by (auto simp: select_session_def split: list.splits)
  moreover from filter_key_distinct [OF assms(1), of cid]
  have "?rows = [] \<or> (\<exists>s. ?rows = [s])" .
  ultimately have "?rows = [s]" by auto
  with x show ?thesis by simp
qed

lemma select_session_None:
  "select_session cid t = None \<longleftrightarrow> (\<forall>x \<in> set (conversation_sessions t). session_id x \<noteq> cid)"
proof -
  have "select_session cid t = None
        \<longleftrightarrow> filter (\<lambda>y. session_id y = cid) (conversation_sessions t) = []"
    by (simp add: select_session_def split: list.splits)
  then show ?thesis by (simp add: filter_empty_conv)
qed



lemma counted_sessions:
  "conversation_sessions (update_session_count st cid (insert_conversation cid st0 u a t))
   = map (\<lambda>s. if session_id s = cid
               then s\<lparr>last_updated := st, message_count := message_count s + 1\<rparr> else s)
       (conversation_sessions t)"
  by (simp add: update_session_count_def insert_conversation_def Let_def)

lemma counted_select:
  "select_message_count cid (update_session_count st cid (insert_conversation cid st0 u a t))
   = map_option (\<lambda>s. message_count s + 1) (select_session cid t)"
proof -
  have fm: "filter (\<lambda>s. session_id s = cid)
          (map (\<lambda>s. if session_id s = cid
                     then s\<lparr>last_updated := st, message_count := message_count s + 1\<rparr> else s) xs)
        = map (\<lambda>s. s\<lparr>last_updated := st, message_count := message_count s + 1\<rparr>)
            (filter (\<lambda>s. session_id s = cid) xs)" for xs
    by (induction xs) simp_all
  show ?thesis
    unfolding select_message_count_def select_session_def counted_sessions fm
    by (simp split: list.splits)
qed

lemma turn_update_sessions:
  assumes d: "distinct (map session_id (conversation_sessions t))"
  shows "conversation_sessions (turn_update env cid u a t)
         = map (\<lambda>s. if session_id s = cid then session_after_turn env u s else s)
             (conversation_sessions t)"
proof (cases "select_session cid t")
  case None
  then have no: "\<forall>x \<in> set (conversation_sessions t). session_id x \<noteq> cid"
    by (simp add: select_session_None)
  from None have "conversation_sessions (turn_update env cid u a t)
      = map (\<lambda>s. if session_id s = cid
                  then s\<lparr>last_updated := clock env 1, message_count := message_count s + 1\<rparr>
                  else s) (conversation_sessions t)"
    by (simp add: turn_update_def Let_def counted_sessions counted_select)
  with no show ?thesis by simp
next
  case (Some s)
  have only: "x = s" if "x \<in> set (conversation_sessions t)" "session_id x = cid" for x
    using select_session_unique [OF d Some that] .
  show ?thesis
  proof (cases "message_count s = 0")
    case True
    with Some show ?thesis
      using only
      by (auto simp: turn_update_def Let_def counted_sessions counted_select
          update_session_title_def session_after_turn_def)
  next
    case False
    with Some show ?thesis
      using only
      by (auto simp: turn_update_def Let_def counted_sessions counted_select
          session_after_turn_def)
  qed
qed

lemma turn_update_conversations:
  "conversations (turn_update env cid u a t)
   = conversations t
     @ [\<lparr>row_id = Suc (max (sqlite_sequence t) (max_row_id (conversations t))),
         conversation_id = cid, timestamp = clock env 0, user_message = u, ai_response = a\<rparr>]"
  by (simp add: turn_update_def update_session_count_def update_session_title_def
      insert_conversation_def Let_def)

lemma turn_update_turn_count:
  "turn_count k (turn_update env cid u a t) = turn_count k t + (if k = cid then 1 else 0)"
  by (simp add: turn_count_def turn_update_conversations)

lemma session_after_turn_id: "session_id (session_after_turn env u s) = session_id s"
  by (simp add: session_after_turn_def)

lemma turn_update_distinct:
  assumes "distinct (map session_id (conversation_sessions t))"
  shows "distinct (map session_id (conversation_sessions (turn_update env cid u a t)))"
proof -
  have "map session_id (map (\<lambda>s. if session_id s = cid then session_after_turn env u s else s) xs)
        = map session_id xs" for xs
    by (induction xs) (simp_all add: session_after_turn_id)
  with assms show ?thesis by (simp only: turn_update_sessions [OF assms])
qed

lemma turn_update_select_session:
  assumes d: "distinct (map session_id (conversation_sessions t))"
  shows "select_session cid (turn_update env cid u a t)
         = map_option (session_after_turn env u) (select_session cid t)"
proof -
  have "filter (\<lambda>s. session_id s = cid)
          (map (\<lambda>s. if session_id s = cid then session_after_turn env u s else s) xs)
        = map (session_after_turn env u) (filter (\<lambda>s. session_id s = cid) xs)" for xs
    by (induction xs) (simp_all add: session_after_turn_id)
  then show ?thesis
    by (simp add: select_session_def turn_update_sessions [OF d] split: list.splits)
qed

section \<open>Several saved turns\<close>

lemma ensure_session_truthy:
  "current_conversation_id ai = Some cid \<Longrightarrow> cid \<noteq> [] \<Longrightarrow> ensure_session cenv ai = ai"
  by (simp add: ensure_session_def truthy_def)

lemma calm_undisturbed: "calm_env env \<Longrightarrow> undisturbed env cid u a t"
  by (simp add: calm_env_def undisturbed_def)

lemma save_conversation_calm:
  assumes "\<not> in_transaction (connection_pool ai)" and "current_conversation_id ai = Some cid"
    and "cid \<noteq> []" and "calm_env env"
  shows "save_conversation cenv env u a ai
         = (Committed,
            ai\<lparr>connection_pool :=
                 \<lparr>committed = turn_update env cid u a (committed (connection_pool ai)),
                  pending = None\<rparr>\<rparr>)"
proof -
  have e: "ensure_session cenv ai = ai"
    using assms(2,3) by (rule ensure_session_truthy)
  have c: "current_id ai = cid" using assms(2) by (simp add: current_id_def)
  have "save_transaction env cid u a (connection_pool ai)
        = (True, \<lparr>committed = turn_update env cid u a (committed (connection_pool ai)),
                  pending = None\<rparr>)"
    using assms(1) calm_undisturbed [OF assms(4)] by (rule save_transaction_completed)
  then show ?thesis by (simp add: save_conversation_def e c)
qed

lemma session_after_turns_count:
  "message_count (session_after_turns turns s) = message_count s + length turns"
  by (induction turns s rule: session_after_turns.induct) (simp_all add: session_after_turn_def)

lemma session_after_turns_frame:
  "created_at (session_after_turns turns s) = created_at s
   \<and> session_id (session_after_turns turns s) = session_id s"
  by (induction turns s rule: session_after_turns.induct) (simp_all add: session_after_turn_def)

lemma session_after_turns_title_kept:
  "message_count s \<noteq> 0 \<Longrightarrow> title (session_after_turns turns s) = title s"
  by (induction turns s rule: session_after_turns.induct) (simp_all add: session_after_turn_def)

lemma session_after_turns_title:
  "title (session_after_turns ((env, u, a) # rest) s)
   = (if message_count s = 0 then title_for u else title s)"
proof -
  have "message_count (session_after_turn env u s) \<noteq> 0"
    by (simp add: session_after_turn_def)
  then have "title (session_after_turns rest (session_after_turn env u s))
             = title (session_after_turn env u s)"
    by (rule session_after_turns_title_kept)
  then show ?thesis by (simp add: session_after_turn_def)
qed

lemma session_after_turns_last_updated:
  "last_updated (session_after_turns (turns @ [(env, u, a)]) s) = clock env 1"
  by (induction turns s rule: session_after_turns.induct) (simp_all add: session_after_turn_def)

lemma save_turns_session:
  assumes "\<not> in_transaction (connection_pool ai)" and "current_conversation_id ai = Some cid"
    and "cid \<noteq> []"
    and "distinct (map session_id (conversation_sessions (committed (connection_pool ai))))"
    and "select_session cid (committed (connection_pool ai)) = Some s"
    and "calm_turns turns"
  shows "pending (connection_pool (save_turns cenv turns ai)) = None
    \<and> current_conversation_id (save_turns cenv turns ai) = Some cid
    \<and> distinct (map session_id
         (conversation_sessions (committed (connection_pool (save_turns cenv turns ai)))))
    \<and> length (conversation_sessions (committed (connection_pool (save_turns cenv turns ai))))
       = length (conversation_sessions (committed (connection_pool ai)))
    \<and> select_session cid (committed (connection_pool (save_turns cenv turns ai)))
       = Some (session_after_turns turns s)
    \<and> turn_count cid (committed (connection_pool (save_turns cenv turns ai)))
       = turn_count cid (committed (connection_pool ai)) + length turns"
  using assms
proof (induction turns arbitrary: ai s)
  case Nil
  then show ?case by (simp add: in_transaction_def)
next
  case (Cons turn turns)
  obtain env u a where turn: "turn = (env, u, a)" by (cases turn) auto
  let ?t = "committed (connection_pool ai)"
  let ?ai = "ai\<lparr>connection_pool := \<lparr>committed = turn_update env cid u a ?t, pending = None\<rparr>\<rparr>"
  from Cons.prems(6) turn have calm: "calm_env env" and rest: "calm_turns turns"
    by (simp_all add: calm_turns_def)
  have step: "save_conversation cenv env u a ai = (Committed, ?ai)"
    using Cons.prems(1,2,3) calm by (rule save_conversation_calm)
  have 1: "\<not> in_transaction (connection_pool ?ai)" by (simp add: in_transaction_def)
  have 2: "current_conversation_id ?ai = Some cid" using Cons.prems(2) by simp
  have 4: "distinct (map session_id (conversation_sessions (committed (connection_pool ?ai))))"
    using turn_update_distinct [OF Cons.prems(4)] by simp
  have 5: "select_session cid (committed (connection_pool ?ai)) = Some (session_after_turn env u s)"
    using turn_update_select_session [OF Cons.prems(4), of cid env u a] Cons.prems(5) by simp
  have len: "length (conversation_sessions (committed (connection_pool ?ai)))
             = length (conversation_sessions ?t)"
    by (simp add: turn_update_sessions [OF Cons.prems(4)])
  have cnt: "turn_count cid (committed (connection_pool ?ai)) = turn_count cid ?t + 1"
    by (simp add: turn_update_turn_count)
  from Cons.IH [OF 1 2 Cons.prems(3) 4 5 rest] len cnt
  show ?case by (simp add: turn step)
qed

section \<open>Atomicity of a save\<close>

text \<open>
  In Hande.py the session statement of a save is refused: nothing is rolled back, the
  inserted turn stays in the open transaction, and the next save, of another conversation,
  commits it. The turn of conversation \<open>a1b2c3d4\<close> is then recorded although that
  conversation has no session row.
\<close>

theorem save_to_db_counterexample:
  "pending (db_conn orphaned)
     = Some \<lparr>ts_conversations =
               [\<lparr>row_id = 1, conversation_id = ''a1b2c3d4'', timestamp = 100,
                 user_message = ''first question'', ai_response = ''first answer''\<rparr>],
             ts_sessions = []\<rparr>
   \<and> committed (db_conn (save_to_db (calm 200) ''second question'' ''second answer''
                           (orphaned\<lparr>ts_current_conversation_id := Some ''e5f6a7b8''\<rparr>)))
     = \<lparr>ts_conversations =
          [\<lparr>row_id = 1, conversation_id = ''a1b2c3d4'', timestamp = 100,
            user_message = ''first question'', ai_response = ''first answer''\<rparr>,
           \<lparr>row_id = 2, conversation_id = ''e5f6a7b8'', timestamp = 200,
            user_message = ''second question'', ai_response = ''second answer''\<rparr>],
        ts_sessions =
          [\<lparr>ts_session_id = ''e5f6a7b8'', ts_title = ''second question'',
            ts_created_at = 200, ts_last_updated = 200\<rparr>]\<rparr>"
  by code_simp

lemma save_conversation_cases:
  fixes create_env env user_msg ai_msg ai
  defines "ai1 \<equiv> ensure_session create_env ai"
    and "result \<equiv> save_conversation create_env env user_msg ai_msg ai"
  shows "pending (connection_pool (snd result)) = None
    \<and> (fst result = Committed
         \<longleftrightarrow> \<not> in_transaction (connection_pool ai1)
             \<and> undisturbed env (current_id ai1) user_msg ai_msg (committed (connection_pool ai1)))
    \<and> (fst result = Committed
         \<longrightarrow> committed (connection_pool (snd result))
             = turn_update env (current_id ai1) user_msg ai_msg (committed (connection_pool ai1)))
    \<and> (fst result \<noteq> Committed
         \<longrightarrow> committed (connection_pool (snd result)) = committed (connection_pool ai1))"
proof (cases "\<not> in_transaction (connection_pool ai1)
              \<and> undisturbed env (current_id ai1) user_msg ai_msg (committed (connection_pool ai1))")
  case True
  then have "save_transaction env (current_id ai1) user_msg ai_msg (connection_pool ai1)
      = (True, \<lparr>committed = turn_update env (current_id ai1) user_msg ai_msg
                               (committed (connection_pool ai1)),
                pending = None\<rparr>)"
    by (simp add: save_transaction_completed)
  then have "result = (Committed, ai1\<lparr>connection_pool :=
      \<lparr>committed = turn_update env (current_id ai1) user_msg ai_msg
                      (committed (connection_pool ai1)),
       pending = None\<rparr>\<rparr>)"
    by (simp add: result_def save_conversation_def ai1_def Let_def)
  with True show ?thesis by simp
next
  case False
  let ?body = "save_transaction env (current_id ai1) user_msg ai_msg (connection_pool ai1)"
  from False have nf: "\<not> fst ?body"
    by (intro save_transaction_disturbed) blast
  then have cm: "committed (snd ?body) = committed (connection_pool ai1)"
    by (rule save_transaction_refused)
  have r: "result = (case execute_rollback (snd ?body) of
                 (True, c) \<Rightarrow> (Rolled_back, ai1\<lparr>connection_pool := c\<rparr>)
               | (False, c) \<Rightarrow> (Rollback_raised, ai1\<lparr>connection_pool := c\<rparr>))"
    using nf unfolding result_def ai1_def save_conversation_def Let_def by simp
  show ?thesis
  proof (cases "in_transaction (snd ?body)")
    case True
    with r cm False show ?thesis by (simp add: execute_rollback_def)
  next
    case False
    note nt = this
    with r cm \<open>\<not> (\<not> in_transaction (connection_pool ai1) \<and> _)\<close> show ?thesis
      by (simp add: execute_rollback_def in_transaction_def)
  qed
qed

text \<open>
  C7, for the store of Hande_GUI.py. \<open>save_conversation\<close> is atomic. After the call no
  transaction is open. The call commits exactly when no transaction was open before its
  BEGIN and no statement it executes is refused; the committed tables are then the tables
  before with the turn inserted, the session touched and counted, and the title written
  when the count became 1. In every other case the committed tables, both
  \<open>conversations\<close> and \<open>conversation_sessions\<close>, are what they were when the transaction
  began (after the session was created, when there was none).
\<close>

theorem save_conversation_atomic:
  fixes create_env env user_msg ai_msg ai
  defines "ai1 \<equiv> ensure_session create_env ai"
    and "result \<equiv> save_conversation create_env env user_msg ai_msg ai"
  shows "pending (connection_pool (snd result)) = None
    \<and> (fst result = Committed
         \<longleftrightarrow> \<not> in_transaction (connection_pool ai1)
             \<and> undisturbed env (current_id ai1) user_msg ai_msg (committed (connection_pool ai1)))
    \<and> (fst result = Committed
         \<longrightarrow> committed (connection_pool (snd result))
             = turn_update env (current_id ai1) user_msg ai_msg (committed (connection_pool ai1)))
    \<and> (fst result \<noteq> Committed
         \<longrightarrow> committed (connection_pool (snd result)) = committed (connection_pool ai1))"
  unfolding ai1_def result_def by (rule save_conversation_cases)

theorem save_conversation_atomic_witness:
  "save_conversation (calm 100) (refusing 2 200) ''hello there'' ''hi'' new_chat
     = (Rolled_back, new_chat)
   \<and> fst (save_conversation (calm 100) (calm 200) ''hello there'' ''hi'' new_chat) = Committed
   \<and> committed (connection_pool
        (snd (save_conversation (calm 100) (calm 200) ''hello there'' ''hi'' new_chat)))
     = turn_update (calm 200) ''3f2504e0-4f89-41d3-9a0c-0305e82c3301'' ''hello there'' ''hi''
         (committed (connection_pool new_chat))"
proof -
  have e: "ensure_session (calm 100) new_chat = new_chat" by code_simp
  have i: "current_id new_chat = ''3f2504e0-4f89-41d3-9a0c-0305e82c3301''" by code_simp
  have a: "save_conversation (calm 100) (refusing 2 200) ''hello there'' ''hi'' new_chat
     = (Rolled_back, new_chat)" by code_simp
  have b: "fst (save_conversation (calm 100) (calm 200) ''hello there'' ''hi'' new_chat) = Committed"
    by code_simp
  from save_conversation_atomic [of "calm 100" "calm 200" "''hello there''" "''hi''" new_chat] a b
  show ?thesis by (simp add: e i)
qed

section \<open>The session listing\<close>






section \<open>The count of a session\<close>


lemma calm_calm: "calm_env (calm t)"
  by (simp add: calm_env_def calm_def)

lemma three_turns_calm: "calm_turns three_turns"
  by (simp add: calm_turns_def three_turns_def calm_calm)





section \<open>The title of a session\<close>

lemma session_after_turns_last:
  "turns \<noteq> [] \<Longrightarrow> last_updated (session_after_turns turns s) = clock (fst (last turns)) 1"
proof -
  assume "turns \<noteq> []"
  then obtain front env u a where t: "turns = front @ [(env, u, a)]"
    by (metis append_butlast_last_id prod_cases3)
  then show ?thesis by (simp add: session_after_turns_last_updated)
qed

text \<open>
  In Hande.py two turns are saved to one conversation: \<open>INSERT OR REPLACE\<close> writes the
  title and the creation time again with the second turn.
\<close>

theorem save_to_db_title_counterexample:
  "ts_sessions (committed (db_conn
      (save_to_db (calm 100) ''first question'' ''first answer'' (empty_ts_store ''a1b2c3d4''))))
     = [\<lparr>ts_session_id = ''a1b2c3d4'', ts_title = ''first question'',
         ts_created_at = 100, ts_last_updated = 100\<rparr>]
   \<and> ts_sessions (committed (db_conn
        (save_to_db (calm 200) ''second question'' ''second answer''
           (save_to_db (calm 100) ''first question'' ''first answer''
              (empty_ts_store ''a1b2c3d4'')))))
     = [\<lparr>ts_session_id = ''a1b2c3d4'', ts_title = ''second question'',
         ts_created_at = 200, ts_last_updated = 200\<rparr>]"
  by code_simp

text \<open>
  C8, for the store of Hande_GUI.py. In \<open>save_conversation\<close>, one saved turn changes the
  row of the current session only, and in it the time of the last update, the count, and,
  when the count was 0, the title, which becomes the user text cut to 30 characters and
  "...". After one or more saved turns the title is the one written from the first turn
  when the session had no turn before, and the old title otherwise; the creation time is
  unchanged; the count has grown by the number of turns; the time of the last update is
  that of the last turn.
\<close>

theorem title_written_by_first_turn_only:
  assumes "\<not> in_transaction (connection_pool ai)"
    and "current_conversation_id ai = Some cid" and "cid \<noteq> []"
    and "distinct (map session_id (conversation_sessions (committed (connection_pool ai))))"
    and "select_session cid (committed (connection_pool ai)) = Some s"
    and "calm_turns ((env, user_msg, ai_msg) # rest)"
  shows "conversation_sessions (committed (connection_pool
            (snd (save_conversation create_env env user_msg ai_msg ai))))
         = map (\<lambda>r. if session_id r = cid then session_after_turn env user_msg r else r)
             (conversation_sessions (committed (connection_pool ai)))
    \<and> select_session cid (committed (connection_pool
          (save_turns create_env ((env, user_msg, ai_msg) # rest) ai)))
       = Some (session_after_turns ((env, user_msg, ai_msg) # rest) s)
    \<and> title (session_after_turns ((env, user_msg, ai_msg) # rest) s)
       = (if message_count s = 0 then title_for user_msg else title s)
    \<and> created_at (session_after_turns ((env, user_msg, ai_msg) # rest) s) = created_at s
    \<and> message_count (session_after_turns ((env, user_msg, ai_msg) # rest) s)
       = message_count s + Suc (length rest)
    \<and> last_updated (session_after_turns ((env, user_msg, ai_msg) # rest) s)
       = clock (fst (last ((env, user_msg, ai_msg) # rest))) 1"
proof -
  let ?turns = "(env, user_msg, ai_msg) # rest"
  from assms(6) have calm: "calm_env env" by (simp add: calm_turns_def)
  have "save_conversation create_env env user_msg ai_msg ai
        = (Committed, ai\<lparr>connection_pool :=
             \<lparr>committed = turn_update env cid user_msg ai_msg (committed (connection_pool ai)),
              pending = None\<rparr>\<rparr>)"
    using assms(1,2,3) calm by (rule save_conversation_calm)
  then have one: "conversation_sessions (committed (connection_pool
            (snd (save_conversation create_env env user_msg ai_msg ai))))
         = map (\<lambda>r. if session_id r = cid then session_after_turn env user_msg r else r)
             (conversation_sessions (committed (connection_pool ai)))"
    by (simp add: turn_update_sessions [OF assms(4)])
  from save_turns_session [OF assms(1,2,3,4,5,6), of create_env]
  have many: "select_session cid (committed (connection_pool (save_turns create_env ?turns ai)))
       = Some (session_after_turns ?turns s)"
    by blast
  have ttl: "title (session_after_turns ?turns s)
       = (if message_count s = 0 then title_for user_msg else title s)"
    by (rule session_after_turns_title)
  have cr: "created_at (session_after_turns ?turns s) = created_at s"
    using session_after_turns_frame [of ?turns s] by blast
  have cnt: "message_count (session_after_turns ?turns s) = message_count s + Suc (length rest)"
    using session_after_turns_count [of ?turns s] by simp
  have lu: "last_updated (session_after_turns ?turns s) = clock (fst (last ?turns)) 1"
    by (rule session_after_turns_last) simp
  from one many ttl cr cnt lu show ?thesis by blast
qed

theorem title_written_by_first_turn_only_witness:
  "select_session ''3f2504e0-4f89-41d3-9a0c-0305e82c3301''
     (committed (connection_pool (save_turns (calm 100) three_turns new_chat)))
   = Some \<lparr>session_id = ''3f2504e0-4f89-41d3-9a0c-0305e82c3301'', title = ''q1'',
           created_at = 100, last_updated = 401, message_count = 3\<rparr>"
proof -
  let ?cid = "''3f2504e0-4f89-41d3-9a0c-0305e82c3301''"
  let ?row = "\<lparr>session_id = ?cid, title = ''New Chat'', created_at = 100,
               last_updated = 101, message_count = 0\<rparr>"
  have n: "new_chat = \<lparr>current_conversation_id = Some ?cid,
      connection_pool = \<lparr>committed = \<lparr>conversations = [], conversation_sessions = [?row],
                                       sqlite_sequence = 0\<rparr>, pending = None\<rparr>\<rparr>"
    by code_simp
  have n1: "\<not> in_transaction (connection_pool new_chat)" by (simp add: n in_transaction_def)
  have n2: "current_conversation_id new_chat = Some ?cid" by (simp add: n)
  have n3: "?cid \<noteq> []" by simp
  have n4: "distinct (map session_id (conversation_sessions (committed (connection_pool new_chat))))"
    by (simp add: n)
  have n5: "select_session ?cid (committed (connection_pool new_chat)) = Some ?row"
    by (simp add: n select_session_def)
  have t: "three_turns = (calm 200, ''q1'', ''a1'') # [(calm 300, ''q2'', ''a2''), (calm 400, ''q3'', ''a3'')]"
    by (simp add: three_turns_def)
  have n6: "calm_turns ((calm 200, ''q1'', ''a1'') # [(calm 300, ''q2'', ''a2''), (calm 400, ''q3'', ''a3'')])"
    using three_turns_calm by (simp only: t)
  have v: "session_after_turns three_turns ?row
           = \<lparr>session_id = ?cid, title = ''q1'', created_at = 100, last_updated = 401,
              message_count = 3\<rparr>"
    by code_simp
  from title_written_by_first_turn_only [OF n1 n2 n3 n4 n5 n6, of "calm 100"]
  show ?thesis by (simp only: t [symmetric] v)
qed

section \<open>The recent turns\<close>

lemma fold_max_ge: "x \<in> set xs \<Longrightarrow> x \<le> fold max xs (a::nat)"
proof -
  assume "x \<in> set xs"
  then have "x \<le> Max (set (a # xs))" by simp
  then show ?thesis by (simp only: Max.set_eq_fold)
qed

lemma max_row_id_ge: "r \<in> set rows \<Longrightarrow> row_id r \<le> max_row_id rows"
  unfolding max_row_id_def by (rule fold_max_ge) simp

lemma insert_conversation_ordered:
  assumes "ordered_by_insertion t"
  shows "ordered_by_insertion (insert_conversation cid st u a t)"
proof -
  have "\<forall>r \<in> set (conversations t).
          row_id r < Suc (max (sqlite_sequence t) (max_row_id (conversations t)))"
    using max_row_id_ge [of _ "conversations t"] by fastforce
  with assms show ?thesis
    by (simp add: ordered_by_insertion_def insert_conversation_def Let_def sorted_wrt_append)
qed

lemma turn_update_ordered:
  "ordered_by_insertion t \<Longrightarrow> ordered_by_insertion (turn_update env cid u a t)"
  using insert_conversation_ordered [of t cid "clock env 0" u a]
  by (simp add: ordered_by_insertion_def turn_update_conversations insert_conversation_def Let_def)

lemma sorted_rows_of:
  assumes "ordered_by_insertion t"
  shows "sort_key row_id (filter P (conversations t)) = filter P (conversations t)"
proof -
  from assms have "sorted_wrt (<) (map row_id (conversations t))"
    by (simp add: ordered_by_insertion_def)
  then have "sorted_wrt (\<lambda>x y. row_id x < row_id y) (conversations t)"
    by (simp add: sorted_wrt_map)
  then have "sorted_wrt (\<lambda>x y. row_id x < row_id y) (filter P (conversations t))"
    by (rule sorted_wrt_filter)
  then have "sorted_wrt (\<lambda>x y. row_id x \<le> row_id y) (filter P (conversations t))"
    by (rule sorted_wrt_mono_rel [rotated]) simp
  then have "sorted (map row_id (filter P (conversations t)))"
    by (simp add: sorted_wrt_map)
  then show ?thesis by (rule sort_key_id_if_sorted)
qed

lemma newest_rows: "rev (take n (rev ys)) = drop (length ys - n) ys"
  by (simp add: rev_take)

lemma context_of_ordered:
  assumes "ordered_by_insertion (visible (connection_pool ai))"
    and "current_conversation_id ai = Some cid" and "cid \<noteq> []" and "0 \<le> limit"
  shows "get_conversation_context False limit ai
         = drop (length (turns_of cid (visible (connection_pool ai))) - nat limit)
             (turns_of cid (visible (connection_pool ai)))"
proof -
  let ?rows = "filter (\<lambda>r. conversation_id r = cid) (conversations (visible (connection_pool ai)))"
  have "get_conversation_context False limit ai
        = rev (map (\<lambda>r. (user_message r, ai_response r)) (take (nat limit) (rev ?rows)))"
    using assms(2,3,4)
    by (simp add: get_conversation_context_def sql_limit_def sorted_rows_of [OF assms(1)])
  also have "\<dots> = map (\<lambda>r. (user_message r, ai_response r)) (rev (take (nat limit) (rev ?rows)))"
    by (simp add: rev_map)
  also have "\<dots> = map (\<lambda>r. (user_message r, ai_response r)) (drop (length ?rows - nat limit) ?rows)"
    by (simp only: newest_rows)
  finally show ?thesis by (simp add: turns_of_def drop_map)
qed

lemma context_restamp:
  "get_conversation_context raises limit (restamp f ai) = get_conversation_context raises limit ai"
proof -
  have v: "visible (connection_pool (restamp f ai)) = restamp_tables f (visible (connection_pool ai))"
    by (simp add: restamp_def visible_def split: option.splits)
  have m: "map (\<lambda>r. (user_message r, ai_response r))
             (sql_limit limit (rev (sort_key row_id (filter (\<lambda>r. conversation_id r = c)
                (map (\<lambda>r. r\<lparr>timestamp := f r\<rparr>) rows)))))
           = map (\<lambda>r. (user_message r, ai_response r))
             (sql_limit limit (rev (sort_key row_id (filter (\<lambda>r. conversation_id r = c) rows))))"
    for c rows
  proof -
    let ?g = "\<lambda>r. r\<lparr>timestamp := f r\<rparr>"
    have fl: "filter (\<lambda>r. conversation_id r = c) (map ?g xs)
              = map ?g (filter (\<lambda>r. conversation_id r = c) xs)" for xs
      by (induction xs) simp_all
    have ins: "insort_key row_id (?g x) (map ?g xs) = map ?g (insort_key row_id x xs)" for x xs
      by (induction xs) simp_all
    have so: "sort_key row_id (map ?g xs) = map ?g (sort_key row_id xs)" for xs
      by (induction xs) (simp_all add: ins)
    have li: "sql_limit limit (map ?g xs) = map ?g (sql_limit limit xs)" for xs
      by (simp add: sql_limit_def take_map)
    have rv: "rev (map ?g xs) = map ?g (rev xs)" for xs
      by (rule rev_map)
    have pm: "map (\<lambda>r. (user_message r, ai_response r)) (map ?g xs)
          = map (\<lambda>r. (user_message r, ai_response r)) xs" for xs
      by simp
    show ?thesis
      by (simp only: fl so rv li pm)
  qed
  have cv: "conversations (visible (connection_pool (restamp f ai)))
            = map (\<lambda>r. r\<lparr>timestamp := f r\<rparr>) (conversations (visible (connection_pool ai)))"
    by (simp add: v restamp_tables_def)
  have ci: "current_conversation_id (restamp f ai) = current_conversation_id ai"
    by (simp add: restamp_def)
  show ?thesis
    unfolding get_conversation_context_def cv ci m ..
qed

lemma insert_session_conversations:
  "conversations (insert_session row t) = conversations t"
  by (simp add: insert_session_def)

lemma create_new_conversation_ordered:
  "store_ordered ai \<Longrightarrow> store_ordered (HandeAI_create_new_conversation env ai)"
  by (auto simp: store_ordered_def HandeAI_create_new_conversation_def Let_def execute_dml_def
      and_then_def connection_commit_def in_transaction_def visible_def ordered_by_insertion_def
      insert_session_conversations split: option.splits)

lemma ensure_session_ordered:
  "store_ordered ai \<Longrightarrow> store_ordered (ensure_session env ai)"
  by (simp add: ensure_session_def create_new_conversation_ordered)

lemma save_conversation_ordered:
  assumes "store_ordered ai"
  shows "store_ordered (snd (save_conversation create_env env u a ai))"
proof -
  let ?ai1 = "ensure_session create_env ai"
  let ?r = "save_conversation create_env env u a ai"
  from assms have o: "ordered_by_insertion (committed (connection_pool ?ai1))"
    using ensure_session_ordered [of ai create_env] by (simp add: store_ordered_def)
  have p: "pending (connection_pool (snd ?r)) = None"
    using save_conversation_cases [of create_env env u a ai] by blast
  have "committed (connection_pool (snd ?r)) = committed (connection_pool ?ai1)
        \<or> committed (connection_pool (snd ?r))
           = turn_update env (current_id ?ai1) u a (committed (connection_pool ?ai1))"
    using save_conversation_cases [of create_env env u a ai] by blast
  with o have "ordered_by_insertion (committed (connection_pool (snd ?r)))"
    by (auto simp: turn_update_ordered)
  with p show ?thesis by (simp add: store_ordered_def visible_def)
qed

text \<open>
  C9. For the current session and a limit that is not negative,
  \<open>get_conversation_context\<close> returns the last \<open>limit\<close> turns of the session in the
  order of insertion (all of them when there are fewer), so at most \<open>limit\<close> pairs with
  the most recent last; the result is the same whatever the time stamps of the turns are.
\<close>

theorem recent_turns_most_recent_last:
  assumes "ordered_by_insertion (visible (connection_pool ai))"
    and "current_conversation_id ai = Some cid" and "cid \<noteq> []" and "0 \<le> limit"
  shows "get_conversation_context False limit ai
         = drop (length (turns_of cid (visible (connection_pool ai))) - nat limit)
             (turns_of cid (visible (connection_pool ai)))
    \<and> length (get_conversation_context False limit ai) \<le> nat limit
    \<and> get_conversation_context False limit (restamp f ai)
       = get_conversation_context False limit ai"
proof -
  have a: "get_conversation_context False limit ai
         = drop (length (turns_of cid (visible (connection_pool ai))) - nat limit)
             (turns_of cid (visible (connection_pool ai)))"
    using assms by (rule context_of_ordered)
  then have "length (get_conversation_context False limit ai) \<le> nat limit"
    by simp
  with a context_restamp [of False limit f ai] show ?thesis by blast
qed

theorem recent_turns_most_recent_last_witness:
  "get_conversation_context False 2 (save_turns (calm 100) three_turns new_chat)
     = [(''q2'', ''a2''), (''q3'', ''a3'')]
   \<and> get_conversation_context False 2
       (restamp (\<lambda>r. 1000 - row_id r) (save_turns (calm 100) three_turns new_chat))
     = [(''q2'', ''a2''), (''q3'', ''a3'')]"
proof -
  let ?ai = "save_turns (calm 100) three_turns new_chat"
  let ?cid = "''3f2504e0-4f89-41d3-9a0c-0305e82c3301''"
  have o: "ordered_by_insertion (visible (connection_pool ?ai))" by code_simp
  have c: "current_conversation_id ?ai = Some ?cid" by code_simp
  have n: "?cid \<noteq> []" by simp
  have l: "(0::int) \<le> 2" by simp
  have t: "turns_of ?cid (visible (connection_pool ?ai))
           = [(''q1'', ''a1''), (''q2'', ''a2''), (''q3'', ''a3'')]"
    by code_simp
  from recent_turns_most_recent_last [OF o c n l, of "\<lambda>r. 1000 - row_id r"]
  show ?thesis by (simp add: t)
qed

end
